theory Spec2Isabelle
  imports Main
begin

section \<open>The passphrase identity of the age envelope (package age_encryption)\<close>

text \<open>
  \<^verbatim>\<open>LazyScryptIdentity.Unwrap\<close> receives the stanzas of an envelope header. Of a stanza
  the method reads only its \<^verbatim>\<open>Type\<close>; the other two fields are carried along for
  the delegate.
\<close>

type_synonym bytes = string

record Stanza =
  Type :: string
  Args :: "string list"
  Body :: bytes

text \<open>
  The errors the method can return. \<open>ErrIncorrectIdentity\<close> is the library's sentinel
  \<^verbatim>\<open>age.ErrIncorrectIdentity\<close> (reported to a human as "no identity matched any
  recipient"); \<open>OtherError\<close> stands for any other error value of the library, with its
  message.
\<close>

datatype unwrap_error =
    ScryptNotAlone
  | ErrIncorrectIdentity
  | CouldNotReadPassphrase string
  | IncorrectPassphrase
  | OtherError string

fun error_text :: "unwrap_error \<Rightarrow> string" where
  "error_text ScryptNotAlone = ''an scrypt recipient must be the only one''"
| "error_text ErrIncorrectIdentity = ''incorrect identity for recipient block''"
| "error_text (CouldNotReadPassphrase m) = ''could not read passphrase: '' @ m"
| "error_text IncorrectPassphrase = ''incorrect passphrase''"
| "error_text (OtherError m) = m"

text \<open>
  The library \<^verbatim>\<open>filippo.io/age\<close> is not part of the repository; its two functions the
  method calls are parameters. \<open>NewScryptIdentity\<close> returns an error message or accepts
  the passphrase; \<open>ScryptIdentity_Unwrap\<close> is the delegate's own \<^verbatim>\<open>Unwrap\<close>.
\<close>

record age_lib =
  NewScryptIdentity :: "string \<Rightarrow> string option"
  ScryptIdentity_Unwrap :: "string \<Rightarrow> Stanza list \<Rightarrow> unwrap_error + bytes"

text \<open>
  The identity holds the callback \<^verbatim>\<open>Passphrase func() (string, error)\<close>. Calling it
  prompts a human, so the model returns, next to the method's result, how many times the
  callback was called.
\<close>

record LazyScryptIdentity =
  Passphrase :: "string + string"

text \<open>\<^verbatim>\<open>errors.Is(err, age.ErrIncorrectIdentity)\<close>\<close>

fun errors_Is_ErrIncorrectIdentity :: "unwrap_error \<Rightarrow> bool" where
  "errors_Is_ErrIncorrectIdentity ErrIncorrectIdentity = True"
| "errors_Is_ErrIncorrectIdentity _ = False"

text \<open>
  The first loop: \<^verbatim>\<open>for _, s := range stanzas\<close>, returning early at the first scrypt
  stanza when the whole list (of length \<open>n\<close>) is not a singleton.
\<close>

fun scrypt_among_others :: "nat \<Rightarrow> Stanza list \<Rightarrow> bool" where
  "scrypt_among_others n [] = False"
| "scrypt_among_others n (s # ss) =
     (if Type s = ''scrypt'' \<and> n \<noteq> 1 then True else scrypt_among_others n ss)"

definition Unwrap :: "age_lib \<Rightarrow> LazyScryptIdentity \<Rightarrow> Stanza list \<Rightarrow> nat \<times> (unwrap_error + bytes)" where
  "Unwrap lib i stanzas =
     (if scrypt_among_others (length stanzas) stanzas then (0, Inl ScryptNotAlone)
      else case stanzas of
        [s] \<Rightarrow>
          (if Type s \<noteq> ''scrypt'' then (0, Inl ErrIncorrectIdentity)
           else case Passphrase i of
             Inl m \<Rightarrow> (1, Inl (CouldNotReadPassphrase m))
           | Inr pass \<Rightarrow>
               (case NewScryptIdentity lib pass of
                  Some m \<Rightarrow> (1, Inl (OtherError m))
                | None \<Rightarrow>
                    (case ScryptIdentity_Unwrap lib pass stanzas of
                       Inl e \<Rightarrow>
                         (if errors_Is_ErrIncorrectIdentity e then (1, Inl IncorrectPassphrase)
                          else (1, Inl e))
                     | Inr fileKey \<Rightarrow> (1, Inr fileKey))))
      | _ \<Rightarrow> (0, Inl ErrIncorrectIdentity))"

text \<open>Example inputs: an scrypt stanza, a public-key stanza, a library in which the
  passphrase \<open>''hunter2''\<close> opens the envelope, and two identities.\<close>

definition scrypt_stanza :: Stanza where
  "scrypt_stanza = \<lparr>Type = ''scrypt'', Args = [''salt'', ''18''], Body = ''wrapped''\<rparr>"

definition x25519_stanza :: Stanza where
  "x25519_stanza = \<lparr>Type = ''X25519'', Args = [''share''], Body = ''wrapped''\<rparr>"

definition example_lib :: age_lib where
  "example_lib =
     \<lparr>NewScryptIdentity = (\<lambda>p. if p = [] then Some ''passphrase can't be empty'' else None),
      ScryptIdentity_Unwrap =
        (\<lambda>p ss. if p = ''hunter2'' then Inr ''file key'' else Inl ErrIncorrectIdentity)\<rparr>"

definition right_identity :: LazyScryptIdentity where
  "right_identity = \<lparr>Passphrase = Inr ''hunter2''\<rparr>"

definition wrong_identity :: LazyScryptIdentity where
  "wrong_identity = \<lparr>Passphrase = Inr ''letmein''\<rparr>"

section \<open>The bundling handler (package files): data\<close>

text \<open>
  The rows of the relational store. Package \<^verbatim>\<open>models\<close> is not among the sources, so
  each record has the fields the handler reads or writes: of a file group its \<^verbatim>\<open>ID\<close>,
  the column \<^verbatim>\<open>userId\<close> of the query (here \<open>OwnerId\<close>), \<^verbatim>\<open>BundledAt\<close>,
  \<^verbatim>\<open>ExpiredAt\<close>, \<^verbatim>\<open>ArchivePasscode\<close>, \<^verbatim>\<open>FileKey\<close> and \<^verbatim>\<open>SharedToUserIds\<close>; of a file
  item the column \<^verbatim>\<open>fileGroupId\<close>, \<^verbatim>\<open>Filename\<close> (the name on disk) and \<^verbatim>\<open>Realname\<close>
  (the display name); of a user key \<^verbatim>\<open>UserId\<close> and \<^verbatim>\<open>Public\<close>. A UUID is its string
  form, a time a number of seconds, a pointer to a time an option.
\<close>

type_synonym uuid = string
type_synonym path = string
type_synonym time = int

record FileGroup =
  ID :: uuid
  OwnerId :: uuid
  BundledAt :: "time option"
  ExpiredAt :: "time option"
  ArchivePasscode :: string
  FileKey :: string
  SharedToUserIds :: "string list"

record FileItem =
  ItemFileGroupId :: uuid
  Filename :: string
  Realname :: string

record UserKey =
  UserId :: uuid
  Public :: string

text \<open>
  Modelled from the spec: the row behind an access credential. Package \<^verbatim>\<open>shortlink\<close> is
  not among the sources; the spec's data model gives an access credential an opaque
  code, the file group it belongs to and an optional pin hash (empty when there is none).
\<close>

record ShortLink =
  ShortCode :: string
  LinkFileGroupId :: uuid
  PinCode :: string

record database =
  file_groups :: "FileGroup list"
  file_items :: "FileItem list"
  user_keys :: "UserKey list"
  short_links :: "ShortLink list"

text \<open>
  What a local file or a remote object holds. The handler never looks into the bytes of
  an archive or an envelope, so both are kept symbolic: an archive is the list of its
  entries, each with the name it is stored under, the password it is encrypted with
  (\<^verbatim>\<open>zip.AES256Encryption\<close>), the content it was copied from and, when the copy stopped
  early, the number of bytes that were written; an envelope names the public keys whose
  private keys open it, and its payload.
\<close>

datatype content =
    Plain bytes
  | Zip "entry list"
  | Age "string list" content
and entry =
    Entry (entry_name: string) (entry_password: string) (entry_source: content)
      (entry_cut: "nat option")

record world =
  store :: database
  disk :: "path \<Rightarrow> content option"
  bucket :: "string \<Rightarrow> (content \<times> time option) option"

text \<open>The JSON body of the request, after binding.\<close>

record BundleFileGroupParam =
  FileGroupId :: uuid
  ExpiredAtParam :: string
  Passcode :: string
  DownloadPassword :: string
  UserIds :: "string list"

text \<open>
  Of the gin context the handler uses two things: \<^verbatim>\<open>middleware.GetUserId(c)\<close> and
  \<^verbatim>\<open>c.ShouldBindJSON\<close>. Both belong to code outside the sources; \<open>None\<close> is their
  error result.
\<close>

record request =
  GetUserId :: "uuid option"
  ShouldBindJSON :: "BundleFileGroupParam option"

text \<open>
  What the handler answers: \<^verbatim>\<open>c.AbortWithStatusJSON(status, {success: false, message})\<close>,
  \<^verbatim>\<open>c.JSON(http.StatusCreated, {expiredAt, downloadUrl})\<close>, or a run-time panic for
  calling a method on a nil interface value.
\<close>

datatype response =
    AbortWithStatusJSON nat string
  | JSON_Created "time option" string
  | NilPointerPanic

datatype store_fault = StoreError | ZeroRows

text \<open>
  Everything outside the handler: the configuration, the libraries and the faults of the
  operating system, the store and the remote bucket. \<^verbatim>\<open>os.Open\<close>, \<^verbatim>\<open>os.Create\<close>,
  \<^verbatim>\<open>os.Remove\<close> and every call of the store can fail, whether the source inspects the
  result or discards it.
  \<^item> \<open>GenerateFromPassword\<close> is \<^verbatim>\<open>bcrypt.GenerateFromPassword(_, bcrypt.DefaultCost)\<close>, an
    error message or the hash (the random salt is not modelled);
  \<^item> \<open>time_Parse\<close> is \<^verbatim>\<open>time.Parse(time.RFC3339, _)\<close>, \<open>time_Now\<close> the clock;
  \<^item> \<open>open_error\<close>, \<open>create_error\<close>, \<open>remove_error\<close> are faults of \<^verbatim>\<open>os.Open\<close>,
    \<^verbatim>\<open>os.Create\<close> and \<^verbatim>\<open>os.Remove\<close> at a path; \<open>zip_error\<close> makes
    \<^verbatim>\<open>zipCompressor.Encrypt\<close> fail for an entry name; \<open>copy_error\<close> makes \<^verbatim>\<open>io.Copy\<close>
    fail for a source path after so many bytes;
  \<^item> \<open>first_error\<close>, \<open>find_error\<close>, \<open>keys_error\<close>, \<open>save_fault\<close> are faults of the
    store: of the fetch of the group, of the look-up of the member files, of the look-up
    of the keys, and of \<^verbatim>\<open>db.Save\<close> (the handler's and the worker's);
  \<^item> \<open>wrap_error\<close> and \<open>wrap_name\<close> belong to \<^verbatim>\<open>age_encryption.EncryptFile\<close>,
    \<open>code_result\<close> and \<open>MakeURL\<close> to package \<^verbatim>\<open>shortlink\<close>, \<open>put_error\<close> to
    \<^verbatim>\<open>s3Client.PutObject\<close>.
\<close>

record env =
  dirpaths_bundle :: path
  dirpaths_upload :: path
  GenerateFromPassword :: "string \<Rightarrow> string + string"
  time_Parse :: "string \<Rightarrow> string + time"
  time_Now :: time
  first_error :: bool
  find_error :: bool
  save_fault :: "store_fault option"
  create_error :: "path \<Rightarrow> string option"
  open_error :: "path \<Rightarrow> bool"
  remove_error :: "path \<Rightarrow> bool"
  keys_error :: bool
  zip_error :: "string \<Rightarrow> bool"
  copy_error :: "path \<Rightarrow> nat option"
  wrap_error :: "string option"
  wrap_name :: "path \<Rightarrow> path \<Rightarrow> path"
  code_result :: "string + string"
  MakeURL :: "string \<Rightarrow> string"
  put_error :: "string \<Rightarrow> bool"

section \<open>The bundling handler: the operations it calls\<close>

text \<open>
  \<^verbatim>\<open>filepath.Join\<close> of a directory and a name, without the cleaning of the path;
  \<^verbatim>\<open>filepath.Base\<close> as the standard library defines it for \<^verbatim>\<open>/\<close>.
\<close>

definition filepath_Join :: "path \<Rightarrow> string \<Rightarrow> path" where
  "filepath_Join dir name = dir @ ''/'' @ name"

definition filepath_Base :: "path \<Rightarrow> string" where
  "filepath_Base p =
     (if p = [] then ''.''
      else let q = rev (dropWhile (\<lambda>c. c = CHR ''/'') (rev p));
               b = rev (takeWhile (\<lambda>c. c \<noteq> CHR ''/'') (rev q))
           in if b = [] then ''/'' else b)"

text \<open>
  The store. \<^verbatim>\<open>db.Where(`id = ? AND "userId" = ? AND "bundledAt" IS NULL`, ...).First\<close>
  returns the first row that matches, or none; \<^verbatim>\<open>Find\<close> returns the rows that match;
  \<^verbatim>\<open>db.Save\<close> writes every field of the row with its primary key, or inserts the row
  when there is none. The look-up of the keys returns no row when the store fails: the
  handler tests its \<^verbatim>\<open>RowsAffected\<close> only.
\<close>

definition db_First :: "database \<Rightarrow> uuid \<Rightarrow> uuid \<Rightarrow> FileGroup option" where
  "db_First d gid uid =
     find (\<lambda>g. ID g = gid \<and> OwnerId g = uid \<and> BundledAt g = None) (file_groups d)"

definition db_Find_items :: "database \<Rightarrow> uuid \<Rightarrow> FileItem list" where
  "db_Find_items d gid = filter (\<lambda>i. ItemFileGroupId i = gid) (file_items d)"

definition db_Find_keys :: "env \<Rightarrow> database \<Rightarrow> string list \<Rightarrow> UserKey list" where
  "db_Find_keys e d uids =
     (if keys_error e then [] else filter (\<lambda>k. UserId k \<in> set uids) (user_keys d))"

definition db_Save :: "FileGroup \<Rightarrow> database \<Rightarrow> database" where
  "db_Save g d =
     d\<lparr>file_groups :=
         (if \<exists>r \<in> set (file_groups d). ID r = ID g
          then map (\<lambda>r. if ID r = ID g then g else r) (file_groups d)
          else file_groups d @ [g])\<rparr>"

text \<open>The local file system.\<close>

definition os_Create :: "env \<Rightarrow> (path \<Rightarrow> content option) \<Rightarrow> path \<Rightarrow> string + (path \<Rightarrow> content option)" where
  "os_Create e d p =
     (case create_error e p of Some m \<Rightarrow> Inl m | None \<Rightarrow> Inr (d(p \<mapsto> Plain [])))"

definition os_Open :: "env \<Rightarrow> (path \<Rightarrow> content option) \<Rightarrow> path \<Rightarrow> content option" where
  "os_Open e d p = (if open_error e p then None else d p)"

definition os_Remove :: "env \<Rightarrow> (path \<Rightarrow> content option) \<Rightarrow> path \<Rightarrow> (path \<Rightarrow> content option)" where
  "os_Remove e d p = (if remove_error e p then d else d(p := None))"

text \<open>
  The archive writer of \<^verbatim>\<open>github.com/yeka/zip\<close>, as the list of entries it has started.
  \<^verbatim>\<open>Encrypt\<close> starts a new entry (its header is in the archive from then on) and gives
  the writer of its bytes; \<^verbatim>\<open>io.Copy\<close> into that writer fills the entry that was
  started last, completely or up to the byte where it fails. \<^verbatim>\<open>Flush\<close> and \<^verbatim>\<open>Close\<close>
  finish the file that \<^verbatim>\<open>os.Create\<close> opened: the archive is what the path holds, unless
  the path was removed in between (the open file then has no name any more).
\<close>

definition zip_Encrypt :: "env \<Rightarrow> entry list \<Rightarrow> string \<Rightarrow> string \<Rightarrow> entry list option" where
  "zip_Encrypt e zw name password =
     (if zip_error e name then None else Some (zw @ [Entry name password (Plain []) (Some 0)]))"

definition fill_last :: "content \<Rightarrow> nat option \<Rightarrow> entry list \<Rightarrow> entry list" where
  "fill_last f n zw =
     (case rev zw of
        [] \<Rightarrow> []
      | x # xs \<Rightarrow> rev (Entry (entry_name x) (entry_password x) f n # xs))"

definition io_Copy :: "env \<Rightarrow> path \<Rightarrow> content \<Rightarrow> entry list \<Rightarrow> entry list \<times> bool" where
  "io_Copy e p f zw =
     (case copy_error e p of
        Some n \<Rightarrow> (fill_last f (Some n) zw, False)
      | None \<Rightarrow> (fill_last f None zw, True))"

definition zip_Close :: "(path \<Rightarrow> content option) \<Rightarrow> path \<Rightarrow> entry list \<Rightarrow> (path \<Rightarrow> content option)" where
  "zip_Close d p zw = (if d p = None then d else d(p \<mapsto> Zip zw))"

text \<open>
  Modelled from the spec: \<^verbatim>\<open>age_encryption.EncryptFile(path, destDir, publicKeys)\<close>,
  which is not among the sources. The spec's \<^verbatim>\<open>WrapForRecipients(artifactPath, destDir,
  recipientPublicKeys) -> newArtifactPath\<close> produces an envelope that any one of the
  recipients' private keys unwraps, and leaves the artifact it read in place. The name of
  the new file is the environment's.
\<close>

definition EncryptFile ::
  "env \<Rightarrow> (path \<Rightarrow> content option) \<Rightarrow> path \<Rightarrow> path \<Rightarrow> string list
     \<Rightarrow> string + (path \<times> (path \<Rightarrow> content option))" where
  "EncryptFile e d src destDir keys =
     (case wrap_error e of
        Some m \<Rightarrow> Inl m
      | None \<Rightarrow>
          (case d src of
             None \<Rightarrow> Inl ''no such file''
           | Some c \<Rightarrow> Inr (wrap_name e src destDir, d(wrap_name e src destDir \<mapsto> Age keys c))))"

text \<open>
  Modelled from the spec: \<^verbatim>\<open>shortlink.MakeNewCode(&fileGroup.ID, pinCode, db)\<close>, which is
  not among the sources. The spec's \<^verbatim>\<open>MintCode(groupId, optionalPinHash) -> code\<close> creates
  a credential bound to the group, gated by the pin when there is one.
\<close>

definition MakeNewCode :: "env \<Rightarrow> uuid \<Rightarrow> string \<Rightarrow> database \<Rightarrow> string + (string \<times> database)" where
  "MakeNewCode e gid pinCode d =
     (case code_result e of
        Inl m \<Rightarrow> Inl m
      | Inr code \<Rightarrow>
          Inr (code, d\<lparr>short_links := short_links d @
                 [\<lparr>ShortCode = code, LinkFileGroupId = gid, PinCode = pinCode\<rparr>]\<rparr>))"

section \<open>The bundling handler: \<^verbatim>\<open>BundleFileGroup\<close>\<close>

text \<open>
  The local variables of the handler that live across its steps. \<open>err\<close> is the variable
  \<^verbatim>\<open>err\<close> of the handler's outermost scope (\<open>None\<close> is \<^verbatim>\<open>nil\<close>, \<open>Some m\<close> an error with
  the message \<open>m\<close>): it is declared by \<^verbatim>\<open>userId, err := middleware.GetUserId(c)\<close> and
  assigned again by the later \<^verbatim>\<open>:=\<close> of that scope (\<^verbatim>\<open>bcrypt\<close>, \<^verbatim>\<open>os.Create\<close>,
  \<^verbatim>\<open>time.Parse\<close>, \<^verbatim>\<open>shortlink.MakeNewCode\<close>); the \<^verbatim>\<open>err\<close> of the binding's \<^verbatim>\<open>if\<close>
  statement, of the loop body and of the blocks of the wrap and of the download password
  are variables of their own.
\<close>

record locals =
  userId :: uuid
  bodyParams :: BundleFileGroupParam
  passcode :: string
  fileGroup :: FileGroup
  fileItems :: "FileItem list"
  bundledFullPath :: path
  userPubKeys :: "string list"
  err :: "string option"

text \<open>
  Lines 37 to 88: the user, the body, the hash of the passcode, the conditional fetch of
  the group and its member files. Nothing is written.
\<close>

definition admit :: "env \<Rightarrow> request \<Rightarrow> database \<Rightarrow> response + locals" where
  "admit e r d =
     (case GetUserId r of
        None \<Rightarrow> Inl (AbortWithStatusJSON 403 ''Unauthorized request'')
      | Some u \<Rightarrow>
     (case ShouldBindJSON r of
        None \<Rightarrow> Inl (AbortWithStatusJSON 400 ''Invalid body request'')
      | Some p \<Rightarrow>
     (case GenerateFromPassword e (Passcode p) of
        Inl m \<Rightarrow> Inl (AbortWithStatusJSON 400 ''Unable to process password'')
      | Inr h \<Rightarrow>
     (case (if first_error e then None else db_First d (FileGroupId p) u) of
        None \<Rightarrow> Inl (AbortWithStatusJSON 500 ''Invalid file group'')
      | Some g \<Rightarrow>
         (if find_error e \<or> length (db_Find_items d (ID g)) \<le> 0
          then Inl (AbortWithStatusJSON 500 ''Empty file group'')
          else Inr \<lparr>userId = u, bodyParams = p, passcode = h, fileGroup = g,
                    fileItems = db_Find_items d (ID g), bundledFullPath = [],
                    userPubKeys = [], err = None\<rparr>)))))"

text \<open>Lines 90 to 100: the path of the archive and \<^verbatim>\<open>os.Create\<close>.\<close>

definition archive_path :: "env \<Rightarrow> uuid \<Rightarrow> path" where
  "archive_path e gid = filepath_Join (dirpaths_bundle e) (gid @ ''.zip'')"

definition create_archive ::
  "env \<Rightarrow> locals \<Rightarrow> (path \<Rightarrow> content option) \<Rightarrow> response + (locals \<times> (path \<Rightarrow> content option))" where
  "create_archive e l d =
     (case os_Create e d (archive_path e (ID (fileGroup l))) of
        Inl m \<Rightarrow> Inl (AbortWithStatusJSON 500 (''Unable to bundle files:'' @ m))
      | Inr d' \<Rightarrow> Inr (l\<lparr>bundledFullPath := archive_path e (ID (fileGroup l))\<rparr>, d'))"

text \<open>
  Lines 102 to 118: the public keys of the users the bundle is shared with, the requester
  added to the list of ids.
\<close>

definition share_keys :: "env \<Rightarrow> database \<Rightarrow> locals \<Rightarrow> locals" where
  "share_keys e d l =
     (if length (UserIds (bodyParams l)) > 0
      then let userShares = UserIds (bodyParams l) @ [userId l];
               userKeys = db_Find_keys e d userShares
           in if length userKeys > 0
              then l\<lparr>userPubKeys := userPubKeys l @ map Public userKeys,
                     fileGroup := (fileGroup l)
                       \<lparr>SharedToUserIds := SharedToUserIds (fileGroup l) @ map UserId userKeys\<rparr>\<rparr>
              else l
      else l)"

text \<open>
  Lines 122 to 149: the body of the loop over the member files and the loop. The state
  of the loop is the local file system and the archive writer.
\<close>

definition zip_item ::
  "env \<Rightarrow> string \<Rightarrow> FileItem \<Rightarrow> (path \<Rightarrow> content option) \<times> entry list
     \<Rightarrow> (path \<Rightarrow> content option) \<times> entry list" where
  "zip_item e password item st =
     (let filePath = filepath_Join (dirpaths_upload e) (Filename item) in
      case os_Open e (fst st) filePath of
        None \<Rightarrow> st
      | Some f \<Rightarrow>
          (case zip_Encrypt e (snd st) (Realname item) password of
             None \<Rightarrow> st
           | Some zw \<Rightarrow>
               (case io_Copy e filePath f zw of
                  (zw', False) \<Rightarrow> (fst st, zw')
                | (zw', True) \<Rightarrow> (os_Remove e (fst st) filePath, zw'))))"

fun zip_items ::
  "env \<Rightarrow> string \<Rightarrow> FileItem list \<Rightarrow> (path \<Rightarrow> content option) \<times> entry list
     \<Rightarrow> (path \<Rightarrow> content option) \<times> entry list" where
  "zip_items e password [] st = st"
| "zip_items e password (item # items) st = zip_items e password items (zip_item e password item st)"

text \<open>
  Which way a member file takes through the body of the loop on a given file system: one
  of the three \<^verbatim>\<open>continue\<close> (the file does not open, the entry cannot be prepared, the
  copy fails after some bytes), or the end of the body; and the entries the member leaves
  in the archive writer on that way.
\<close>

definition member_path :: "env \<Rightarrow> FileItem \<Rightarrow> path" where
  "member_path e item = filepath_Join (dirpaths_upload e) (Filename item)"

datatype outcome = OpenFailed | PrepareFailed | CopyFailed content nat | Written content

definition outcome_of :: "env \<Rightarrow> (path \<Rightarrow> content option) \<Rightarrow> FileItem \<Rightarrow> outcome" where
  "outcome_of e d item =
     (case os_Open e d (member_path e item) of
        None \<Rightarrow> OpenFailed
      | Some f \<Rightarrow>
          (if zip_error e (Realname item) then PrepareFailed
           else case copy_error e (member_path e item) of
                  Some n \<Rightarrow> CopyFailed f n
                | None \<Rightarrow> Written f))"

definition entries_of :: "env \<Rightarrow> string \<Rightarrow> (path \<Rightarrow> content option) \<Rightarrow> FileItem \<Rightarrow> entry list" where
  "entries_of e password d item =
     (case outcome_of e d item of
        OpenFailed \<Rightarrow> []
      | PrepareFailed \<Rightarrow> []
      | CopyFailed f n \<Rightarrow> [Entry (Realname item) password f (Some n)]
      | Written f \<Rightarrow> [Entry (Realname item) password f None])"

definition removed_paths :: "env \<Rightarrow> (path \<Rightarrow> content option) \<Rightarrow> FileItem list \<Rightarrow> path list" where
  "removed_paths e d items =
     map (member_path e)
       (filter (\<lambda>i. case outcome_of e d i of
                     Written f \<Rightarrow> \<not> remove_error e (member_path e i)
                   | _ \<Rightarrow> False) items)"

text \<open>Lines 120 to 152: a new writer on the created file, the loop, \<^verbatim>\<open>Flush\<close> and \<^verbatim>\<open>Close\<close>.\<close>

definition write_archive :: "env \<Rightarrow> locals \<Rightarrow> (path \<Rightarrow> content option) \<Rightarrow> (path \<Rightarrow> content option)" where
  "write_archive e l d =
     (case zip_items e (Passcode (bodyParams l)) (fileItems l) (d, []) of
        (d', zw) \<Rightarrow> zip_Close d' (bundledFullPath l) zw)"

text \<open>Lines 154 to 169: the locator of the artifact, and the envelope when there are keys.\<close>

definition wrap_archive ::
  "env \<Rightarrow> locals \<Rightarrow> (path \<Rightarrow> content option)
     \<Rightarrow> (response \<times> (path \<Rightarrow> content option)) + (locals \<times> (path \<Rightarrow> content option))" where
  "wrap_archive e l d =
     (if length (userPubKeys l) > 0
      then case EncryptFile e d (bundledFullPath l) (dirpaths_bundle e) (userPubKeys l) of
             Inl m \<Rightarrow> Inl (AbortWithStatusJSON 500 (''Unable to encrypt the file:'' @ m), d)
           | Inr (filePathEnc, d') \<Rightarrow>
               Inr (l\<lparr>fileGroup := (fileGroup l)\<lparr>FileKey := filePathEnc\<rparr>\<rparr>,
                    os_Remove e d' (bundledFullPath l))
      else Inr (l\<lparr>fileGroup := (fileGroup l)\<lparr>FileKey := bundledFullPath l\<rparr>\<rparr>, d))"

text \<open>Lines 171 to 179: the expiry (thirty days from now when it does not parse) and the
  fields of the row that is about to be saved.\<close>

definition stamp :: "env \<Rightarrow> locals \<Rightarrow> locals" where
  "stamp e l =
     (case time_Parse e (ExpiredAtParam (bodyParams l)) of
        Inl m \<Rightarrow>
          l\<lparr>err := Some m,
            fileGroup := (fileGroup l)
              \<lparr>ArchivePasscode := passcode l, BundledAt := Some (time_Now e),
               ExpiredAt := Some (time_Now e + 60 * 60 * 24 * 30)\<rparr>\<rparr>
      | Inr expDate \<Rightarrow>
          l\<lparr>err := None,
            fileGroup := (fileGroup l)
              \<lparr>ArchivePasscode := passcode l, BundledAt := Some (time_Now e),
               ExpiredAt := Some expDate\<rparr>\<rparr>)"

text \<open>
  Everything before \<^verbatim>\<open>db.Save\<close> (lines 37 to 179): either a response and the world the
  handler leaves behind, or the local variables and the world at line 180.
\<close>

definition bundle_prepare :: "env \<Rightarrow> request \<Rightarrow> world \<Rightarrow> (response \<times> world) + (locals \<times> world)" where
  "bundle_prepare e r w =
     (case admit e r (store w) of
        Inl resp \<Rightarrow> Inl (resp, w)
      | Inr l0 \<Rightarrow>
     (case create_archive e l0 (disk w) of
        Inl resp \<Rightarrow> Inl (resp, w)
      | Inr (l1, d1) \<Rightarrow>
     (case wrap_archive e (share_keys e (store w) l1) (write_archive e (share_keys e (store w) l1) d1) of
        Inl (resp, d2) \<Rightarrow> Inl (resp, w\<lparr>disk := d2\<rparr>)
      | Inr (l2, d2) \<Rightarrow> Inr (stamp e l2, w\<lparr>disk := d2\<rparr>))))"

text \<open>
  Lines 181 to 249. \<^verbatim>\<open>db.Save\<close> and its check; in the failure branch the message is
  built from \<^verbatim>\<open>err.Error()\<close>, with the \<^verbatim>\<open>err\<close> of the outer scope. After a successful
  save the handler starts the migration worker on \<^verbatim>\<open>fileGroup.FileKey\<close> (the third
  component of the result is the worker's argument and the row it captured), hashes the
  download password when there is one, makes the code and answers.
\<close>

definition pin_code :: "env \<Rightarrow> locals \<Rightarrow> string + string" where
  "pin_code e l =
     (if length (DownloadPassword (bodyParams l)) > 0
      then case GenerateFromPassword e (DownloadPassword (bodyParams l)) of
             Inl m \<Rightarrow> Inl m
           | Inr pinEnc \<Rightarrow> Inr pinEnc
      else Inr [])"

definition bundle_finish ::
  "env \<Rightarrow> locals \<Rightarrow> world \<Rightarrow> response \<times> world \<times> (path \<times> FileGroup) option" where
  "bundle_finish e l w =
     (case save_fault e of
        Some fault \<Rightarrow>
          (case err l of
             None \<Rightarrow> (NilPointerPanic, w, None)
           | Some m \<Rightarrow> (AbortWithStatusJSON 500 (''Unable to bundle files:'' @ m), w, None))
      | None \<Rightarrow>
          (let w1 = w\<lparr>store := db_Save (fileGroup l) (store w)\<rparr>;
               job = Some (FileKey (fileGroup l), fileGroup l)
           in case pin_code e l of
                Inl m \<Rightarrow> (AbortWithStatusJSON 500 (''Unable to bundle files:'' @ m), w1, job)
              | Inr pinCode \<Rightarrow>
                  (case MakeNewCode e (ID (fileGroup l)) pinCode (store w1) of
                     Inl m \<Rightarrow>
                       (AbortWithStatusJSON 500 (''Unable to create download link:'' @ m), w1, job)
                   | Inr (shortLink, d) \<Rightarrow>
                       (JSON_Created (ExpiredAt (fileGroup l)) (MakeURL e shortLink),
                        w1\<lparr>store := d\<rparr>, job))))"

definition BundleFileGroup ::
  "env \<Rightarrow> request \<Rightarrow> world \<Rightarrow> response \<times> world \<times> (path \<times> FileGroup) option" where
  "BundleFileGroup e r w =
     (case bundle_prepare e r w of
        Inl (resp, w') \<Rightarrow> (resp, w', None)
      | Inr (l, w') \<Rightarrow> bundle_finish e l w')"

text \<open>
  Lines 190 to 216: the migration worker, the function the handler starts with \<^verbatim>\<open>go\<close>.
  It runs on its own; its result is the world it leaves behind. After a successful upload
  it calls \<^verbatim>\<open>db.Save\<close> and \<^verbatim>\<open>os.Remove\<close> and looks at the result of neither.
\<close>

definition migration_worker :: "env \<Rightarrow> path \<times> FileGroup \<Rightarrow> world \<Rightarrow> world" where
  "migration_worker e job w =
     (let filePath = fst job; keyName = filepath_Base filePath in
      case os_Open e (disk w) filePath of
        None \<Rightarrow> w
      | Some bundledFile \<Rightarrow>
          (if put_error e keyName then w
           else w\<lparr>bucket := (bucket w)(keyName \<mapsto> (bundledFile, ExpiredAt (snd job))),
                  store := (case save_fault e of
                              Some fault \<Rightarrow> store w
                            | None \<Rightarrow> db_Save ((snd job)\<lparr>FileKey := keyName\<rparr>) (store w)),
                  disk := os_Remove e (disk w) filePath\<rparr>))"

text \<open>
  Two calls of the handler that overlap. Each call runs on a goroutine of its own and
  the store serialises single operations only, so the scheduler may let the first call
  run up to line 180, then the second call up to line 180, then the first call from its
  \<^verbatim>\<open>db.Save\<close> to its end, then the second. The result is the two responses and the
  world after both, or \<open>None\<close> when one of the calls is answered before its save.
\<close>

definition overlapping_calls ::
  "env \<Rightarrow> request \<Rightarrow> request \<Rightarrow> world \<Rightarrow> (response \<times> response \<times> world) option" where
  "overlapping_calls e rA rB w =
     (case bundle_prepare e rA w of
        Inl _ \<Rightarrow> None
      | Inr (lA, w1) \<Rightarrow>
          (case bundle_prepare e rB w1 of
             Inl _ \<Rightarrow> None
           | Inr (lB, w2) \<Rightarrow>
               (case bundle_finish e lA w2 of
                  (respA, w3, jobA) \<Rightarrow>
                    (case bundle_finish e lB w3 of
                       (respB, w4, jobB) \<Rightarrow> Some (respA, respB, w4)))))"

section \<open>Example inputs\<close>

text \<open>
  A group \<open>g\<close> of the user \<open>o\<close> with two member files, stored as \<open>/u/a\<close> and
  \<open>/u/b\<close> and shown as \<open>a.txt\<close> and \<open>b.txt\<close>; registered keys for \<open>o\<close> and for
  another user \<open>u1\<close>; an environment without faults.
\<close>

definition example_group :: FileGroup where
  "example_group =
     \<lparr>ID = ''g'', OwnerId = ''o'', BundledAt = None, ExpiredAt = None,
      ArchivePasscode = [], FileKey = [], SharedToUserIds = []\<rparr>"

definition example_store :: database where
  "example_store =
     \<lparr>file_groups = [example_group],
      file_items =
        [\<lparr>ItemFileGroupId = ''g'', Filename = ''a'', Realname = ''a.txt''\<rparr>,
         \<lparr>ItemFileGroupId = ''g'', Filename = ''b'', Realname = ''b.txt''\<rparr>],
      user_keys = [\<lparr>UserId = ''o'', Public = ''Ko''\<rparr>, \<lparr>UserId = ''u1'', Public = ''K1''\<rparr>],
      short_links = []\<rparr>"

definition example_world :: world where
  "example_world =
     \<lparr>store = example_store,
      disk = [''/u/a'' \<mapsto> Plain ''A'', ''/u/b'' \<mapsto> Plain ''B''],
      bucket = Map.empty\<rparr>"

definition example_env :: env where
  "example_env =
     \<lparr>dirpaths_bundle = ''/z'', dirpaths_upload = ''/u'',
      GenerateFromPassword = (\<lambda>p. Inr (CHR ''#'' # p)),
      time_Parse = (\<lambda>s. if s = ''2025-01-01T00:00:00Z'' then Inr 1735689600 else Inl ''parsing time''),
      time_Now = 1700000000,
      first_error = False, find_error = False, save_fault = None,
      create_error = (\<lambda>p. None), open_error = (\<lambda>p. False), remove_error = (\<lambda>p. False),
      keys_error = False, zip_error = (\<lambda>n. False),
      copy_error = (\<lambda>p. None),
      wrap_error = None, wrap_name = (\<lambda>src dir. src @ ''.age''),
      code_result = Inr ''c0de'', MakeURL = (\<lambda>c. ''/d/'' @ c),
      put_error = (\<lambda>k. False)\<rparr>"

definition example_body :: BundleFileGroupParam where
  "example_body =
     \<lparr>FileGroupId = ''g'', ExpiredAtParam = ''2025-01-01T00:00:00Z'', Passcode = ''secret1'',
      DownloadPassword = [], UserIds = []\<rparr>"

definition example_request :: request where
  "example_request = \<lparr>GetUserId = Some ''o'', ShouldBindJSON = Some example_body\<rparr>"

definition shared_request :: request where
  "shared_request =
     \<lparr>GetUserId = Some ''o'', ShouldBindJSON = Some (example_body\<lparr>UserIds := [''u1'']\<rparr>)\<rparr>"

text \<open>The environment in which the copy of \<open>/u/b\<close> fails before its first byte, the
  environments in which the removal of \<open>/u/a\<close> and of \<open>/z/g.zip\<close> fails, the
  environments in which
  \<^verbatim>\<open>db.Save\<close> and the look-up of the keys fail, a configuration and a world in which
  the only member file is stored at the path of the archive, and the local variables of
  the example request after line 100.\<close>

definition copy_fails_env :: env where
  "copy_fails_env = example_env\<lparr>copy_error := (\<lambda>p. if p = ''/u/b'' then Some 0 else None)\<rparr>"

definition remove_fails_env :: env where
  "remove_fails_env = example_env\<lparr>remove_error := (\<lambda>p. p = ''/u/a'')\<rparr>"

definition save_fails_env :: env where
  "save_fails_env = example_env\<lparr>save_fault := Some StoreError\<rparr>"

definition keys_fail_env :: env where
  "keys_fail_env = example_env\<lparr>keys_error := True\<rparr>"

definition collision_env :: env where
  "collision_env = example_env\<lparr>dirpaths_upload := ''/z''\<rparr>"

definition collision_world :: world where
  "collision_world =
     \<lparr>store = example_store
        \<lparr>file_items := [\<lparr>ItemFileGroupId = ''g'', Filename = ''g.zip'', Realname = ''a.txt''\<rparr>]\<rparr>,
      disk = [''/z/g.zip'' \<mapsto> Plain ''A''],
      bucket = Map.empty\<rparr>"

definition archive_stays_env :: env where
  "archive_stays_env = example_env\<lparr>remove_error := (\<lambda>p. p = ''/z/g.zip'')\<rparr>"

definition example_locals :: locals where
  "example_locals =
     \<lparr>userId = ''o'', bodyParams = example_body, passcode = ''#secret1'',
      fileGroup = example_group, fileItems = file_items example_store,
      bundledFullPath = ''/z/g.zip'', userPubKeys = [], err = None\<rparr>"

text \<open>The example group after a bundling without recipients, and a world that holds its
  archive.\<close>

definition bundled_group :: FileGroup where
  "bundled_group =
     example_group\<lparr>BundledAt := Some 1700000000, ExpiredAt := Some 1735689600,
       ArchivePasscode := ''#secret1'', FileKey := ''/z/g.zip''\<rparr>"

definition bundled_world :: world where
  "bundled_world =
     \<lparr>store = example_store\<lparr>file_groups := [bundled_group]\<rparr>,
      disk = [''/z/g.zip'' \<mapsto> Zip [Entry ''a.txt'' ''secret1'' (Plain ''A'') None]],
      bucket = Map.empty\<rparr>"

text \<open>
  More examples: an environment in which the wrap fails; a world in which the owner
  \<open>o\<close> has no registered key; a request with a download password; and the results of
  the example requests, named so that later statements can refer to their parts.
\<close>

definition wrap_fails_env :: env where
  "wrap_fails_env = example_env\<lparr>wrap_error := Some ''boom''\<rparr>"

definition keyless_world :: world where
  "keyless_world =
     example_world\<lparr>store := example_store\<lparr>user_keys := [\<lparr>UserId = ''u1'', Public = ''K1''\<rparr>]\<rparr>\<rparr>"

definition pin_request :: request where
  "pin_request =
     \<lparr>GetUserId = Some ''o'',
      ShouldBindJSON = Some (example_body\<lparr>DownloadPassword := ''download1''\<rparr>)\<rparr>"

definition plain_result :: "response \<times> world \<times> (path \<times> FileGroup) option" where
  "plain_result = BundleFileGroup example_env example_request example_world"


definition pin_result :: "response \<times> world \<times> (path \<times> FileGroup) option" where
  "pin_result = BundleFileGroup example_env pin_request example_world"

definition shared_prepared :: "locals \<times> world" where
  "shared_prepared = projr (bundle_prepare example_env shared_request example_world)"


definition wrap_failure_result :: "response \<times> world \<times> (path \<times> FileGroup) option" where
  "wrap_failure_result = BundleFileGroup wrap_fails_env shared_request example_world"

section \<open>Properties of the passphrase identity\<close>

lemma scrypt_among_others_iff:
  "scrypt_among_others n ss \<longleftrightarrow> n \<noteq> 1 \<and> (\<exists>s \<in> set ss. Type s = ''scrypt'')"
  by (induction ss) auto

lemma Unwrap_singleton_scrypt:
  assumes "Type s = ''scrypt''"
  shows "Unwrap lib i [s] =
     (case Passphrase i of
        Inl m \<Rightarrow> (1, Inl (CouldNotReadPassphrase m))
      | Inr pass \<Rightarrow>
          (case NewScryptIdentity lib pass of
             Some m \<Rightarrow> (1, Inl (OtherError m))
           | None \<Rightarrow>
               (case ScryptIdentity_Unwrap lib pass [s] of
                  Inl e \<Rightarrow>
                    (if errors_Is_ErrIncorrectIdentity e then (1, Inl IncorrectPassphrase)
                     else (1, Inl e))
                | Inr fileKey \<Rightarrow> (1, Inr fileKey))))"
  using assms by (simp add: Unwrap_def)

lemma Unwrap_prompts_only_sole_scrypt:
  assumes "fst (Unwrap lib i stanzas) \<noteq> 0"
  shows "\<exists>s. stanzas = [s] \<and> Type s = ''scrypt''"
proof (cases "scrypt_among_others (length stanzas) stanzas")
  case True
  with assms show ?thesis by (simp add: Unwrap_def)
next
  case False
  show ?thesis
  proof (cases stanzas)
    case Nil
    with assms False show ?thesis by (simp add: Unwrap_def)
  next
    case (Cons s ss)
    show ?thesis
    proof (cases ss)
      case Nil
      with Cons assms False show ?thesis
        by (cases "Type s = ''scrypt''") (simp_all add: Unwrap_def)
    next
      case (Cons t ts)
      with \<open>stanzas = s # ss\<close> assms False show ?thesis by (simp add: Unwrap_def)
    qed
  qed
qed

lemma Unwrap_mixed:
  assumes "\<exists>s \<in> set stanzas. Type s = ''scrypt''" and "length stanzas \<noteq> 1"
  shows "Unwrap lib i stanzas = (0, Inl ScryptNotAlone)"
  using assms by (simp add: Unwrap_def scrypt_among_others_iff)

lemma Unwrap_no_scrypt:
  assumes "\<forall>s \<in> set stanzas. Type s \<noteq> ''scrypt''"
  shows "Unwrap lib i stanzas = (0, Inl ErrIncorrectIdentity)"
proof -
  from assms have "\<not> scrypt_among_others (length stanzas) stanzas"
    by (simp add: scrypt_among_others_iff)
  with assms show ?thesis
    by (cases stanzas rule: list.exhaust; cases "tl stanzas") (auto simp: Unwrap_def)
qed

text \<open>
  Claim C9. For every stanza list given to \<^verbatim>\<open>Unwrap\<close>: the passphrase callback is
  called only when the list is exactly one scrypt stanza; a list that holds an scrypt
  stanza and is not a singleton is rejected with "an scrypt recipient must be the only
  one", without prompting; a list with no scrypt stanza yields the generic
  \<^verbatim>\<open>ErrIncorrectIdentity\<close>, without prompting; and when the delegate reports a wrong
  passphrase (as \<^verbatim>\<open>ErrIncorrectIdentity\<close>), the result is the error "incorrect
  passphrase", which is another error than the generic one.
\<close>

theorem Unwrap_contract:
  "(fst (Unwrap lib i stanzas) \<noteq> 0 \<longrightarrow> (\<exists>s. stanzas = [s] \<and> Type s = ''scrypt''))
   \<and> ((\<exists>s \<in> set stanzas. Type s = ''scrypt'') \<and> length stanzas \<noteq> 1 \<longrightarrow>
        Unwrap lib i stanzas = (0, Inl ScryptNotAlone)
        \<and> error_text ScryptNotAlone = ''an scrypt recipient must be the only one'')
   \<and> ((\<forall>s \<in> set stanzas. Type s \<noteq> ''scrypt'') \<longrightarrow>
        Unwrap lib i stanzas = (0, Inl ErrIncorrectIdentity))
   \<and> (stanzas = [s] \<and> Type s = ''scrypt'' \<and> Passphrase i = Inr pass
        \<and> NewScryptIdentity lib pass = None
        \<and> ScryptIdentity_Unwrap lib pass stanzas = Inl ErrIncorrectIdentity \<longrightarrow>
        Unwrap lib i stanzas = (1, Inl IncorrectPassphrase)
        \<and> error_text IncorrectPassphrase = ''incorrect passphrase''
        \<and> IncorrectPassphrase \<noteq> ErrIncorrectIdentity
        \<and> error_text IncorrectPassphrase \<noteq> error_text ErrIncorrectIdentity)"
proof (intro conjI impI)
  assume "fst (Unwrap lib i stanzas) \<noteq> 0"
  then show "\<exists>s. stanzas = [s] \<and> Type s = ''scrypt''"
    by (rule Unwrap_prompts_only_sole_scrypt)
next
  assume "(\<exists>s \<in> set stanzas. Type s = ''scrypt'') \<and> length stanzas \<noteq> 1"
  then show "Unwrap lib i stanzas = (0, Inl ScryptNotAlone)"
    by (simp add: Unwrap_mixed)
next
  assume "\<forall>s \<in> set stanzas. Type s \<noteq> ''scrypt''"
  then show "Unwrap lib i stanzas = (0, Inl ErrIncorrectIdentity)"
    by (rule Unwrap_no_scrypt)
next
  assume a: "stanzas = [s] \<and> Type s = ''scrypt'' \<and> Passphrase i = Inr pass
        \<and> NewScryptIdentity lib pass = None
        \<and> ScryptIdentity_Unwrap lib pass stanzas = Inl ErrIncorrectIdentity"
  then have "ScryptIdentity_Unwrap lib pass [s] = Inl ErrIncorrectIdentity"
    by (elim conjE) simp
  with a show "Unwrap lib i stanzas = (1, Inl IncorrectPassphrase)"
    by (elim conjE) (simp add: Unwrap_singleton_scrypt)
qed simp_all

theorem Unwrap_contract_witness:
  "fst (Unwrap example_lib right_identity [scrypt_stanza]) \<noteq> 0
   \<and> Unwrap example_lib right_identity [scrypt_stanza] = (1, Inr ''file key'')
   \<and> Type x25519_stanza \<noteq> ''scrypt''
   \<and> Unwrap example_lib right_identity [scrypt_stanza, x25519_stanza] = (0, Inl ScryptNotAlone)
   \<and> Unwrap example_lib right_identity [x25519_stanza] = (0, Inl ErrIncorrectIdentity)
   \<and> Unwrap example_lib right_identity [] = (0, Inl ErrIncorrectIdentity)
   \<and> ScryptIdentity_Unwrap example_lib ''letmein'' [scrypt_stanza] = Inl ErrIncorrectIdentity
   \<and> Unwrap example_lib wrong_identity [scrypt_stanza] = (1, Inl IncorrectPassphrase)"
  using Unwrap_contract [of example_lib right_identity "[scrypt_stanza]"]
    Unwrap_contract [of example_lib right_identity "[scrypt_stanza, x25519_stanza]"]
    Unwrap_contract [of example_lib right_identity "[x25519_stanza]"]
    Unwrap_contract [of example_lib right_identity "[]"]
    Unwrap_contract [of example_lib wrong_identity "[scrypt_stanza]" scrypt_stanza "''letmein''"]
  by (simp add: Unwrap_def scrypt_stanza_def x25519_stanza_def example_lib_def
      right_identity_def wrong_identity_def)

section \<open>Properties of the bundling handler: the steps\<close>

lemmas handler_defs =
  BundleFileGroup_def bundle_prepare_def bundle_finish_def admit_def create_archive_def
  share_keys_def write_archive_def wrap_archive_def stamp_def pin_code_def MakeNewCode_def
  zip_item_def os_Open_def os_Create_def os_Remove_def zip_Encrypt_def io_Copy_def
  fill_last_def zip_Close_def EncryptFile_def db_First_def db_Find_items_def db_Find_keys_def
  db_Save_def archive_path_def filepath_Join_def filepath_Base_def migration_worker_def

lemmas example_defs =
  example_env_def example_world_def example_store_def example_group_def example_body_def
  example_request_def shared_request_def copy_fails_env_def example_locals_def remove_fails_env_def
  save_fails_env_def keys_fail_env_def collision_env_def collision_world_def
  archive_stays_env_def
  bundled_group_def bundled_world_def wrap_fails_env_def keyless_world_def pin_request_def

lemma db_First_SomeD:
  assumes "db_First d gid u = Some g"
  shows "g \<in> set (file_groups d) \<and> ID g = gid \<and> OwnerId g = u \<and> BundledAt g = None"
  using assms unfolding db_First_def by (auto simp: find_Some_iff)

lemma admit_InrD:
  assumes "admit e r d = Inr l"
  shows "\<exists>u p h g. GetUserId r = Some u \<and> ShouldBindJSON r = Some p
           \<and> GenerateFromPassword e (Passcode p) = Inr h
           \<and> \<not> first_error e \<and> db_First d (FileGroupId p) u = Some g
           \<and> \<not> find_error e \<and> db_Find_items d (ID g) \<noteq> []
           \<and> l = \<lparr>userId = u, bodyParams = p, passcode = h, fileGroup = g,
                    fileItems = db_Find_items d (ID g), bundledFullPath = [],
                    userPubKeys = [], err = None\<rparr>"
  using assms unfolding admit_def
  by (auto split: option.splits sum.splits if_splits)

lemma create_archive_InrD:
  assumes "create_archive e l d = Inr (l', d')"
  shows "create_error e (archive_path e (ID (fileGroup l))) = None
         \<and> l' = l\<lparr>bundledFullPath := archive_path e (ID (fileGroup l))\<rparr>
         \<and> d' = d(archive_path e (ID (fileGroup l)) \<mapsto> Plain [])"
  using assms unfolding create_archive_def os_Create_def
  by (auto split: option.splits)

lemma share_keys_fields:
  "userId (share_keys e d l) = userId l"
  "bodyParams (share_keys e d l) = bodyParams l"
  "passcode (share_keys e d l) = passcode l"
  "fileItems (share_keys e d l) = fileItems l"
  "bundledFullPath (share_keys e d l) = bundledFullPath l"
  "err (share_keys e d l) = err l"
  "ID (fileGroup (share_keys e d l)) = ID (fileGroup l)"
  "OwnerId (fileGroup (share_keys e d l)) = OwnerId (fileGroup l)"
  by (simp_all add: share_keys_def Let_def)

lemma share_keys_userPubKeys:
  "userPubKeys (share_keys e d l) =
     (if UserIds (bodyParams l) = [] then userPubKeys l
      else userPubKeys l @ map Public (db_Find_keys e d (UserIds (bodyParams l) @ [userId l])))"
  by (simp add: share_keys_def Let_def)

lemma wrap_archive_InrD:
  assumes "wrap_archive e l d = Inr (l', d')"
  shows "(userPubKeys l = [] \<and> l' = l\<lparr>fileGroup := (fileGroup l)\<lparr>FileKey := bundledFullPath l\<rparr>\<rparr> \<and> d' = d)
       \<or> (userPubKeys l \<noteq> [] \<and> wrap_error e = None \<and> (\<exists>c. d (bundledFullPath l) = Some c
            \<and> l' = l\<lparr>fileGroup := (fileGroup l)\<lparr>FileKey := wrap_name e (bundledFullPath l) (dirpaths_bundle e)\<rparr>\<rparr>
            \<and> d' = os_Remove e (d(wrap_name e (bundledFullPath l) (dirpaths_bundle e) \<mapsto> Age (userPubKeys l) c)) (bundledFullPath l)))"
  using assms unfolding wrap_archive_def EncryptFile_def
  by (auto split: option.splits sum.splits if_splits)

lemma wrap_archive_InlD:
  assumes "wrap_archive e l d = Inl (resp, d')"
  shows "d' = d \<and> userPubKeys l \<noteq> [] \<and> (\<exists>m. resp = AbortWithStatusJSON 500 (''Unable to encrypt the file:'' @ m))"
  using assms unfolding wrap_archive_def EncryptFile_def
  by (auto split: option.splits sum.splits if_splits)

lemma stamp_fields:
  "userId (stamp e l) = userId l"
  "bodyParams (stamp e l) = bodyParams l"
  "passcode (stamp e l) = passcode l"
  "fileItems (stamp e l) = fileItems l"
  "bundledFullPath (stamp e l) = bundledFullPath l"
  "userPubKeys (stamp e l) = userPubKeys l"
  "ID (fileGroup (stamp e l)) = ID (fileGroup l)"
  "OwnerId (fileGroup (stamp e l)) = OwnerId (fileGroup l)"
  "FileKey (fileGroup (stamp e l)) = FileKey (fileGroup l)"
  "SharedToUserIds (fileGroup (stamp e l)) = SharedToUserIds (fileGroup l)"
  "BundledAt (fileGroup (stamp e l)) = Some (time_Now e)"
  "ArchivePasscode (fileGroup (stamp e l)) = passcode l"
  by (simp_all add: stamp_def split: sum.splits)

lemma stamp_err:
  "err (stamp e l) = (case time_Parse e (ExpiredAtParam (bodyParams l)) of Inl m \<Rightarrow> Some m | Inr t \<Rightarrow> None)"
  by (simp add: stamp_def split: sum.splits)

lemma bundle_prepare_InrD:
  assumes "bundle_prepare e r w = Inr (l, w')"
  shows "\<exists>l0 l1 d1 l2 d2.
           admit e r (store w) = Inr l0
         \<and> create_archive e l0 (disk w) = Inr (l1, d1)
         \<and> wrap_archive e (share_keys e (store w) l1) (write_archive e (share_keys e (store w) l1) d1) = Inr (l2, d2)
         \<and> l = stamp e l2 \<and> w' = w\<lparr>disk := d2\<rparr>"
  using assms unfolding bundle_prepare_def
  by (auto split: sum.splits prod.splits)

lemma bundle_prepare_InlD:
  assumes "bundle_prepare e r w = Inl (resp, w')"
  shows "(admit e r (store w) = Inl resp \<and> w' = w)
       \<or> (\<exists>l0. admit e r (store w) = Inr l0 \<and> create_archive e l0 (disk w) = Inl resp \<and> w' = w)
       \<or> (\<exists>l0 l1 d1 d2. admit e r (store w) = Inr l0 \<and> create_archive e l0 (disk w) = Inr (l1, d1)
            \<and> wrap_archive e (share_keys e (store w) l1) (write_archive e (share_keys e (store w) l1) d1) = Inl (resp, d2)
            \<and> w' = w\<lparr>disk := d2\<rparr>)"
  using assms unfolding bundle_prepare_def
  by (auto split: sum.splits prod.splits)

lemma wrap_archive_fields:
  assumes "wrap_archive e l d = Inr (l', d')"
  shows "userId l' = userId l" "bodyParams l' = bodyParams l" "passcode l' = passcode l"
    "fileItems l' = fileItems l" "bundledFullPath l' = bundledFullPath l"
    "userPubKeys l' = userPubKeys l" "err l' = err l"
    "ID (fileGroup l') = ID (fileGroup l)" "OwnerId (fileGroup l') = OwnerId (fileGroup l)"
    "SharedToUserIds (fileGroup l') = SharedToUserIds (fileGroup l)"
  using wrap_archive_InrD [OF assms] by auto

lemma bundle_prepare_locals:
  assumes "bundle_prepare e r w = Inr (l, w')"
  shows "\<exists>g. GetUserId r = Some (userId l) \<and> ShouldBindJSON r = Some (bodyParams l)
           \<and> GenerateFromPassword e (Passcode (bodyParams l)) = Inr (passcode l)
           \<and> db_First (store w) (FileGroupId (bodyParams l)) (userId l) = Some g
           \<and> ID (fileGroup l) = FileGroupId (bodyParams l)
           \<and> OwnerId (fileGroup l) = userId l
           \<and> BundledAt (fileGroup l) = Some (time_Now e)
           \<and> ArchivePasscode (fileGroup l) = passcode l
           \<and> fileItems l = db_Find_items (store w) (FileGroupId (bodyParams l))
           \<and> fileItems l \<noteq> []
           \<and> bundledFullPath l = archive_path e (FileGroupId (bodyParams l))
           \<and> err l = (case time_Parse e (ExpiredAtParam (bodyParams l)) of Inl m \<Rightarrow> Some m | Inr t \<Rightarrow> None)
           \<and> store w' = store w \<and> bucket w' = bucket w"
proof -
  from bundle_prepare_InrD [OF assms] obtain l0 l1 d1 l2 d2 where
    a: "admit e r (store w) = Inr l0"
    and c: "create_archive e l0 (disk w) = Inr (l1, d1)"
    and wr: "wrap_archive e (share_keys e (store w) l1) (write_archive e (share_keys e (store w) l1) d1) = Inr (l2, d2)"
    and l: "l = stamp e l2" and w': "w' = w\<lparr>disk := d2\<rparr>"
    by blast
  from admit_InrD [OF a] obtain u p h g where
    u: "GetUserId r = Some u" and p: "ShouldBindJSON r = Some p"
    and h: "GenerateFromPassword e (Passcode p) = Inr h"
    and g: "db_First (store w) (FileGroupId p) u = Some g"
    and items: "db_Find_items (store w) (ID g) \<noteq> []"
    and l0: "l0 = \<lparr>userId = u, bodyParams = p, passcode = h, fileGroup = g,
                    fileItems = db_Find_items (store w) (ID g), bundledFullPath = [],
                    userPubKeys = [], err = None\<rparr>"
    by blast
  from db_First_SomeD [OF g] have gid: "ID g = FileGroupId p" and own: "OwnerId g = u" by simp_all
  from create_archive_InrD [OF c] have l1: "l1 = l0\<lparr>bundledFullPath := archive_path e (ID (fileGroup l0))\<rparr>"
    by simp
  note wf = wrap_archive_fields [OF wr]
  have "GetUserId r = Some (userId l)" using u l l0 l1 wf by (simp add: stamp_fields share_keys_fields)
  moreover have bp: "bodyParams l = p" using l l0 l1 wf by (simp add: stamp_fields share_keys_fields)
  moreover have "userId l = u" using l l0 l1 wf by (simp add: stamp_fields share_keys_fields)
  moreover have "passcode l = h" using l l0 l1 wf by (simp add: stamp_fields share_keys_fields)
  moreover have "ID (fileGroup l) = ID g" using l l0 l1 wf by (simp add: stamp_fields share_keys_fields)
  moreover have "OwnerId (fileGroup l) = OwnerId g" using l l0 l1 wf by (simp add: stamp_fields share_keys_fields)
  moreover have "BundledAt (fileGroup l) = Some (time_Now e)" using l by (simp add: stamp_fields)
  moreover have "ArchivePasscode (fileGroup l) = passcode l" using l wf by (simp add: stamp_fields share_keys_fields)
  moreover have "fileItems l = db_Find_items (store w) (ID g)" using l l0 l1 wf by (simp add: stamp_fields share_keys_fields)
  moreover have "bundledFullPath l = archive_path e (ID g)" using l l0 l1 wf by (simp add: stamp_fields share_keys_fields)
  moreover have "err l = (case time_Parse e (ExpiredAtParam (bodyParams l)) of Inl m \<Rightarrow> Some m | Inr t \<Rightarrow> None)"
    using l wf by (simp add: stamp_err stamp_fields)
  moreover have "store w' = store w" "bucket w' = bucket w" using w' by simp_all
  ultimately show ?thesis using p h g gid own items by auto
qed

section \<open>Properties of the loop over the member files\<close>

lemma fill_last_snoc:
  "fill_last f n (zw @ [x]) = zw @ [Entry (entry_name x) (entry_password x) f n]"
  by (simp add: fill_last_def)

lemma zip_item_outcome:
  "zip_item e password item (d, zw) =
     (case outcome_of e d item of
        OpenFailed \<Rightarrow> (d, zw)
      | PrepareFailed \<Rightarrow> (d, zw)
      | CopyFailed f n \<Rightarrow> (d, zw @ [Entry (Realname item) password f (Some n)])
      | Written f \<Rightarrow> (os_Remove e d (member_path e item), zw @ [Entry (Realname item) password f None]))"
  by (simp add: zip_item_def outcome_of_def member_path_def zip_Encrypt_def io_Copy_def
      fill_last_snoc split: option.splits)

lemma zip_item_eq:
  "zip_item e password item (d, zw) =
     (case outcome_of e d item of Written f \<Rightarrow> os_Remove e d (member_path e item) | _ \<Rightarrow> d,
      zw @ entries_of e password d item)"
  by (simp add: zip_item_outcome entries_of_def split: outcome.splits)

lemma outcome_of_cong:
  assumes "d' (member_path e item) = d (member_path e item)"
  shows "outcome_of e d' item = outcome_of e d item"
  using assms by (simp add: outcome_of_def os_Open_def)

lemma is_removed_iff:
  "(case x of Written f \<Rightarrow> \<not> b | _ \<Rightarrow> False) \<longleftrightarrow> (\<exists>f. x = Written f) \<and> \<not> b"
  by (cases x) simp_all

lemma set_removed_paths:
  "p \<in> set (removed_paths e d items) \<longleftrightarrow>
     (\<exists>i \<in> set items. member_path e i = p \<and> (\<exists>f. outcome_of e d i = Written f)
        \<and> \<not> remove_error e p)"
  unfolding removed_paths_def by (auto simp: is_removed_iff)

lemma removed_paths_subset:
  "set (removed_paths e d items) \<subseteq> set (map (member_path e) items)"
  unfolding removed_paths_def by auto

lemma zip_items_removed_paths:
  assumes "distinct (map (member_path e) items)"
  shows "zip_items e password items (d, zw) =
     ((\<lambda>p. if p \<in> set (removed_paths e d items) then None else d p),
      zw @ concat (map (entries_of e password d) items))"
  using assms
proof (induction items arbitrary: d zw)
  case Nil
  show ?case by (simp add: removed_paths_def)
next
  case (Cons item items)
  define d1 where "d1 = (case outcome_of e d item of Written f \<Rightarrow> os_Remove e d (member_path e item) | _ \<Rightarrow> d)"
  have step: "zip_item e password item (d, zw) = (d1, zw @ entries_of e password d item)"
    by (simp add: zip_item_eq d1_def)
  have other: "d1 p = d p" if "p \<noteq> member_path e item" for p
    using that by (simp add: d1_def os_Remove_def split: outcome.splits)
  have same: "outcome_of e d1 i = outcome_of e d i" if "i \<in> set items" for i
  proof -
    from that Cons.prems have "member_path e i \<noteq> member_path e item"
      by (metis distinct.simps(2) image_eqI list.simps(9) set_map)
    then show ?thesis by (intro outcome_of_cong other)
  qed
  have ents: "map (entries_of e password d1) items = map (entries_of e password d) items"
    by (rule map_cong) (simp_all add: entries_of_def same)
  have rem: "p \<in> set (removed_paths e d1 items) \<longleftrightarrow> p \<in> set (removed_paths e d items)" for p
    by (simp add: set_removed_paths same cong: bex_cong)
  have notin: "member_path e item \<notin> set (removed_paths e d items)"
    using Cons.prems removed_paths_subset [of e d items] by auto
  have head: "p \<in> set (removed_paths e d (item # items)) \<longleftrightarrow>
      (p = member_path e item \<and> (\<exists>f. outcome_of e d item = Written f) \<and> \<not> remove_error e p)
      \<or> p \<in> set (removed_paths e d items)" for p
    by (auto simp: set_removed_paths)
  from Cons.prems have dist: "distinct (map (member_path e) items)" by simp
  have "zip_items e password (item # items) (d, zw) =
        zip_items e password items (d1, zw @ entries_of e password d item)"
    by (simp add: step)
  also have "\<dots> = ((\<lambda>p. if p \<in> set (removed_paths e d1 items) then None else d1 p),
      (zw @ entries_of e password d item) @ concat (map (entries_of e password d1) items))"
    by (rule Cons.IH [OF dist])
  also have "(\<lambda>p. if p \<in> set (removed_paths e d1 items) then None else d1 p)
        = (\<lambda>p. if p \<in> set (removed_paths e d (item # items)) then None else d p)"
  proof
    fix p
    show "(if p \<in> set (removed_paths e d1 items) then None else d1 p)
        = (if p \<in> set (removed_paths e d (item # items)) then None else d p)"
    proof (cases "p = member_path e item")
      case True
      with notin show ?thesis
        by (auto simp: rem head d1_def os_Remove_def split: outcome.splits)
    next
      case False
      then show ?thesis by (auto simp: rem head other)
    qed
  qed
  finally show ?case by (simp add: ents)
qed

lemma written_path_exists:
  assumes "outcome_of e d i = Written f"
  shows "d (member_path e i) = Some f"
  using assms by (simp add: outcome_of_def os_Open_def split: option.splits if_splits)

lemma zip_items_frame:
  assumes "p \<notin> set (map (member_path e) items)"
  shows "fst (zip_items e password items (d, zw)) p = d p"
  using assms
proof (induction items arbitrary: d zw)
  case Nil
  then show ?case by simp
next
  case (Cons item items)
  obtain d1 zw1 where s: "zip_item e password item (d, zw) = (d1, zw1)" by (cases "zip_item e password item (d, zw)")
  have "d1 p = d p" using Cons.prems s
    by (cases "outcome_of e d item") (auto simp: zip_item_outcome os_Remove_def)
  with Cons s show ?case by simp
qed

lemma write_archive_entries:
  assumes "distinct (map (member_path e) (fileItems l))"
    and "bundledFullPath l \<notin> set (map (member_path e) (fileItems l))"
    and "d (bundledFullPath l) \<noteq> None"
  shows "write_archive e l d =
     (\<lambda>p. if p \<in> set (removed_paths e d (fileItems l)) then None else d p)
       (bundledFullPath l \<mapsto> Zip (concat (map (entries_of e (Passcode (bodyParams l)) d) (fileItems l))))"
proof -
  have "bundledFullPath l \<notin> set (removed_paths e d (fileItems l))"
    using assms(2) unfolding removed_paths_def by auto
  with assms(3) show ?thesis
    by (auto simp: write_archive_def zip_items_removed_paths [OF assms(1)] zip_Close_def)
qed

text \<open>
  Claim C5, as the code has it. For every member file, at its turn in the loop: its
  source file is there before and gone after exactly when the archive writer received a
  complete entry with the file's content under the member's display name and, after
  that, \<^verbatim>\<open>os.Remove\<close> did not fail; a member that was skipped (the file did not open, the
  entry could not be prepared, the copy failed) leaves the whole file system as it was; a
  member that was written and whose removal fails leaves it as it was too; and no other
  path is touched. For the loop as a whole, when the members' paths are distinct: the
  source of a member is deleted exactly when that member was written in full and its
  removal did not fail, the source of every other member holds what it held, and so does
  every path that is no member's.
\<close>

theorem sources_removed_iff_written:
  "((d (member_path e item) \<noteq> None \<and> fst (zip_item e password item (d, zw)) (member_path e item) = None)
      \<longleftrightarrow> (\<exists>f. d (member_path e item) = Some f
             \<and> snd (zip_item e password item (d, zw)) = zw @ [Entry (Realname item) password f None])
           \<and> \<not> remove_error e (member_path e item))
   \<and> ((\<forall>f. outcome_of e d item \<noteq> Written f) \<or> remove_error e (member_path e item) \<longrightarrow>
         fst (zip_item e password item (d, zw)) = d)
   \<and> (\<forall>p. p \<noteq> member_path e item \<longrightarrow> fst (zip_item e password item (d, zw)) p = d p)
   \<and> (distinct (map (member_path e) items) \<longrightarrow>
        (\<forall>i \<in> set items.
           ((d (member_path e i) \<noteq> None \<and> fst (zip_items e password items (d, zw)) (member_path e i) = None)
              \<longleftrightarrow> (\<exists>f. outcome_of e d i = Written f) \<and> \<not> remove_error e (member_path e i))
           \<and> ((\<forall>f. outcome_of e d i \<noteq> Written f) \<or> remove_error e (member_path e i) \<longrightarrow>
                fst (zip_items e password items (d, zw)) (member_path e i) = d (member_path e i)))
        \<and> (\<forall>p. p \<notin> set (map (member_path e) items) \<longrightarrow>
              fst (zip_items e password items (d, zw)) p = d p))"
proof (intro conjI impI allI ballI)
  show "(d (member_path e item) \<noteq> None \<and> fst (zip_item e password item (d, zw)) (member_path e item) = None)
      \<longleftrightarrow> (\<exists>f. d (member_path e item) = Some f
             \<and> snd (zip_item e password item (d, zw)) = zw @ [Entry (Realname item) password f None])
           \<and> \<not> remove_error e (member_path e item)"
    by (cases "outcome_of e d item")
       (auto simp: zip_item_outcome os_Remove_def dest: written_path_exists)
next
  assume "(\<forall>f. outcome_of e d item \<noteq> Written f) \<or> remove_error e (member_path e item)"
  then show "fst (zip_item e password item (d, zw)) = d"
    by (cases "outcome_of e d item") (auto simp: zip_item_outcome os_Remove_def)
next
  fix p assume "p \<noteq> member_path e item"
  then show "fst (zip_item e password item (d, zw)) p = d p"
    by (cases "outcome_of e d item") (auto simp: zip_item_outcome os_Remove_def)
next
  fix i assume dist: "distinct (map (member_path e) items)" and i: "i \<in> set items"
  have uniq: "j = i" if "j \<in> set items" "member_path e j = member_path e i" for j
    using that dist i by (meson distinct_map inj_onD)
  have w: "member_path e i \<in> set (removed_paths e d items)
      \<longleftrightarrow> (\<exists>f. outcome_of e d i = Written f) \<and> \<not> remove_error e (member_path e i)"
    unfolding set_removed_paths using uniq i by blast
  show "(d (member_path e i) \<noteq> None \<and> fst (zip_items e password items (d, zw)) (member_path e i) = None)
          \<longleftrightarrow> (\<exists>f. outcome_of e d i = Written f) \<and> \<not> remove_error e (member_path e i)"
    using w by (auto simp: zip_items_removed_paths [OF dist] dest: written_path_exists)
  show "fst (zip_items e password items (d, zw)) (member_path e i) = d (member_path e i)"
    if "(\<forall>f. outcome_of e d i \<noteq> Written f) \<or> remove_error e (member_path e i)"
    using w that by (auto simp: zip_items_removed_paths [OF dist])
next
  fix p assume dist: "distinct (map (member_path e) items)" and p: "p \<notin> set (map (member_path e) items)"
  have "p \<notin> set (removed_paths e d items)"
    using p unfolding removed_paths_def by auto
  then show "fst (zip_items e password items (d, zw)) p = d p"
    by (simp add: zip_items_removed_paths [OF dist])
qed

theorem sources_removed_iff_written_witness:
  "distinct (map (member_path copy_fails_env) (file_items example_store))
   \<and> disk example_world ''/u/a'' = Some (Plain ''A'')
   \<and> outcome_of copy_fails_env (disk example_world) (file_items example_store ! 0)
       = Written (Plain ''A'')
   \<and> \<not> remove_error copy_fails_env ''/u/a''
   \<and> fst (zip_items copy_fails_env ''secret1'' (file_items example_store)
         (disk example_world, [])) ''/u/a'' = None
   \<and> outcome_of copy_fails_env (disk example_world) (file_items example_store ! 1)
       = CopyFailed (Plain ''B'') 0
   \<and> fst (zip_items copy_fails_env ''secret1'' (file_items example_store)
         (disk example_world, [])) ''/u/b'' = Some (Plain ''B'')
   \<and> fst (zip_item copy_fails_env ''secret1'' (file_items example_store ! 1)
         (disk example_world, [])) = disk example_world
   \<and> remove_error remove_fails_env (member_path remove_fails_env (file_items example_store ! 0))
   \<and> fst (zip_item remove_fails_env ''secret1'' (file_items example_store ! 0)
         (disk example_world, [])) = disk example_world"
proof -
  have r: "remove_error remove_fails_env (member_path remove_fails_env (file_items example_store ! 0))"
    by (simp add: example_defs member_path_def filepath_Join_def)
  from sources_removed_iff_written [where e = remove_fails_env and d = "disk example_world"
      and item = "file_items example_store ! 0" and password = "''secret1''" and zw = "[]"] r
  have x: "fst (zip_item remove_fails_env ''secret1'' (file_items example_store ! 0)
         (disk example_world, [])) = disk example_world"
    by blast
  from x r show ?thesis
    using sources_removed_iff_written [where e = copy_fails_env and d = "disk example_world"
      and item = "file_items example_store ! 1" and items = "file_items example_store"
      and password = "''secret1''" and zw = "[]"]
    by (simp add: handler_defs example_defs member_path_def outcome_of_def)
qed

text \<open>
  The claim as the spec states it fails where a removal fails: in the example
  \<^verbatim>\<open>os.Remove\<close> fails for \<open>/u/a\<close>, the request is answered with success, the archive
  holds the complete entry \<open>a.txt\<close>, and the source \<open>/u/a\<close> is still on the disk.
\<close>

theorem written_source_survives_failed_removal:
  "remove_error remove_fails_env ''/u/a''
   \<and> fst (BundleFileGroup remove_fails_env example_request example_world)
       = JSON_Created (Some 1735689600) ''/d/c0de''
   \<and> disk (fst (snd (BundleFileGroup remove_fails_env example_request example_world))) ''/z/g.zip''
       = Some (Zip [Entry ''a.txt'' ''secret1'' (Plain ''A'') None,
                    Entry ''b.txt'' ''secret1'' (Plain ''B'') None])
   \<and> disk (fst (snd (BundleFileGroup remove_fails_env example_request example_world))) ''/u/a''
       = Some (Plain ''A'')
   \<and> disk (fst (snd (BundleFileGroup remove_fails_env example_request example_world))) ''/u/b''
       = None"
  by (simp add: handler_defs example_defs)

text \<open>
  Claim C3, as the code has it. When the members' paths are distinct and none of them is
  the path of the archive, the file that \<^verbatim>\<open>os.Create\<close> opened holds after \<^verbatim>\<open>Close\<close> an
  archive with, in the order of the members, one entry for every member whose source
  opened and whose entry was prepared: under the member's display name, encrypted with the
  passcode of the request, with the content of the member's source, complete when the copy
  succeeded and cut at the byte where the copy failed otherwise. A member whose source did
  not open, or whose entry could not be prepared, has no entry.
\<close>

theorem archive_holds_started_entries:
  assumes "distinct (map (member_path e) (fileItems l))"
    and "bundledFullPath l \<notin> set (map (member_path e) (fileItems l))"
    and "d (bundledFullPath l) \<noteq> None"
  shows "write_archive e l d (bundledFullPath l)
       = Some (Zip (concat (map (entries_of e (Passcode (bodyParams l)) d) (fileItems l))))
     \<and> (\<forall>i. entries_of e (Passcode (bodyParams l)) d i =
          (case outcome_of e d i of
             OpenFailed \<Rightarrow> []
           | PrepareFailed \<Rightarrow> []
           | CopyFailed f n \<Rightarrow> [Entry (Realname i) (Passcode (bodyParams l)) f (Some n)]
           | Written f \<Rightarrow> [Entry (Realname i) (Passcode (bodyParams l)) f None]))
     \<and> (\<forall>i f. outcome_of e d i = Written f \<or> (\<exists>n. outcome_of e d i = CopyFailed f n)
          \<longrightarrow> d (member_path e i) = Some f)"
proof (intro conjI allI impI)
  show "write_archive e l d (bundledFullPath l)
       = Some (Zip (concat (map (entries_of e (Passcode (bodyParams l)) d) (fileItems l))))"
    using assms by (simp add: write_archive_entries)
next
  fix i
  show "entries_of e (Passcode (bodyParams l)) d i =
          (case outcome_of e d i of
             OpenFailed \<Rightarrow> []
           | PrepareFailed \<Rightarrow> []
           | CopyFailed f n \<Rightarrow> [Entry (Realname i) (Passcode (bodyParams l)) f (Some n)]
           | Written f \<Rightarrow> [Entry (Realname i) (Passcode (bodyParams l)) f None])"
    by (simp add: entries_of_def)
next
  fix i f
  assume "outcome_of e d i = Written f \<or> (\<exists>n. outcome_of e d i = CopyFailed f n)"
  then show "d (member_path e i) = Some f"
    by (auto simp: outcome_of_def os_Open_def split: option.splits if_splits)
qed

theorem archive_holds_started_entries_witness:
  "distinct (map (member_path copy_fails_env) (fileItems example_locals))
   \<and> bundledFullPath example_locals \<notin> set (map (member_path copy_fails_env) (fileItems example_locals))
   \<and> ((disk example_world)(''/z/g.zip'' \<mapsto> Plain [])) (bundledFullPath example_locals) \<noteq> None
   \<and> write_archive copy_fails_env example_locals ((disk example_world)(''/z/g.zip'' \<mapsto> Plain []))
        ''/z/g.zip''
       = Some (Zip [Entry ''a.txt'' ''secret1'' (Plain ''A'') None,
                    Entry ''b.txt'' ''secret1'' (Plain ''B'') (Some 0)])"
proof -
  have a: "distinct (map (member_path copy_fails_env) (fileItems example_locals))"
    by (simp add: example_defs member_path_def filepath_Join_def)
  have b: "bundledFullPath example_locals
      \<notin> set (map (member_path copy_fails_env) (fileItems example_locals))"
    by (simp add: example_defs member_path_def filepath_Join_def)
  have c: "((disk example_world)(''/z/g.zip'' \<mapsto> Plain [])) (bundledFullPath example_locals) \<noteq> None"
    by (simp add: example_defs)
  have p: "bundledFullPath example_locals = ''/z/g.zip''"
    by (simp add: example_defs)
  have es: "concat (map (entries_of copy_fails_env (Passcode (bodyParams example_locals))
                ((disk example_world)(''/z/g.zip'' \<mapsto> Plain []))) (fileItems example_locals))
      = [Entry ''a.txt'' ''secret1'' (Plain ''A'') None,
         Entry ''b.txt'' ''secret1'' (Plain ''B'') (Some 0)]"
    by (simp add: example_defs entries_of_def outcome_of_def member_path_def filepath_Join_def
        os_Open_def)
  from archive_holds_started_entries [where e = copy_fails_env and l = example_locals
      and d = "(disk example_world)(''/z/g.zip'' \<mapsto> Plain [])", OF a b c]
  have "write_archive copy_fails_env example_locals ((disk example_world)(''/z/g.zip'' \<mapsto> Plain []))
        (bundledFullPath example_locals)
       = Some (Zip (concat (map (entries_of copy_fails_env (Passcode (bodyParams example_locals))
                ((disk example_world)(''/z/g.zip'' \<mapsto> Plain []))) (fileItems example_locals))))"
    by (rule conjunct1)
  with a b c p es show ?thesis by simp
qed

text \<open>
  The claim as the spec states it fails where a copy fails: in the example the copy of
  \<open>/u/b\<close> stops before its first byte, the request is answered with success, and the
  archive holds an entry \<open>b.txt\<close> of zero bytes next to the complete \<open>a.txt\<close>.
\<close>

theorem failed_copy_leaves_entry:
  "copy_error copy_fails_env ''/u/b'' = Some 0
   \<and> fst (BundleFileGroup copy_fails_env example_request example_world)
       = JSON_Created (Some 1735689600) ''/d/c0de''
   \<and> disk (fst (snd (BundleFileGroup copy_fails_env example_request example_world))) ''/z/g.zip''
       = Some (Zip [Entry ''a.txt'' ''secret1'' (Plain ''A'') None,
                    Entry ''b.txt'' ''secret1'' (Plain ''B'') (Some 0)])"
  by (simp add: handler_defs example_defs)

section \<open>The failure branch of the save\<close>

text \<open>
  Claim C10. When the request reaches \<^verbatim>\<open>db.Save\<close> (line 181), its expiry string parsed
  and the save fails (a store error or zero affected rows), the variable \<^verbatim>\<open>err\<close> that
  the failure branch calls \<^verbatim>\<open>Error()\<close> on is the one \<^verbatim>\<open>time.Parse\<close> assigned last, and
  it is nil: the handler panics with a nil dereference and reports no failure of the store.
  Nothing was saved.
\<close>

theorem persistence_failure_panics:
  assumes "bundle_prepare e r w = Inr (l, w')"
    and "ShouldBindJSON r = Some p"
    and "time_Parse e (ExpiredAtParam p) = Inr t"
    and "save_fault e = Some fault"
  shows "err l = None \<and> BundleFileGroup e r w = (NilPointerPanic, w', None) \<and> store w' = store w"
proof -
  from bundle_prepare_locals [OF assms(1)] assms(2) have bp: "bodyParams l = p"
    and e: "err l = (case time_Parse e (ExpiredAtParam (bodyParams l)) of Inl m \<Rightarrow> Some m | Inr t \<Rightarrow> None)"
    and s: "store w' = store w"
    by auto
  from e bp assms(3) have "err l = None" by simp
  with assms(1,4) s show ?thesis
    by (simp add: BundleFileGroup_def bundle_finish_def)
qed

theorem persistence_failure_panics_witness:
  "\<not> isl (bundle_prepare (example_env\<lparr>save_fault := Some ZeroRows\<rparr>) example_request example_world)
   \<and> ShouldBindJSON example_request = Some example_body
   \<and> time_Parse (example_env\<lparr>save_fault := Some ZeroRows\<rparr>) (ExpiredAtParam example_body)
       = Inr 1735689600
   \<and> save_fault (example_env\<lparr>save_fault := Some ZeroRows\<rparr>) = Some ZeroRows
   \<and> BundleFileGroup (example_env\<lparr>save_fault := Some ZeroRows\<rparr>) example_request example_world
       = (NilPointerPanic,
          snd (projr (bundle_prepare (example_env\<lparr>save_fault := Some ZeroRows\<rparr>)
                 example_request example_world)),
          None)"
proof -
  have h: "bundle_prepare (example_env\<lparr>save_fault := Some ZeroRows\<rparr>) example_request example_world
      = Inr (fst (projr (bundle_prepare (example_env\<lparr>save_fault := Some ZeroRows\<rparr>)
                 example_request example_world)),
             snd (projr (bundle_prepare (example_env\<lparr>save_fault := Some ZeroRows\<rparr>)
                 example_request example_world)))"
    by (simp add: handler_defs example_defs)
  have b: "ShouldBindJSON example_request = Some example_body"
    by (simp add: example_defs)
  have t: "time_Parse (example_env\<lparr>save_fault := Some ZeroRows\<rparr>) (ExpiredAtParam example_body)
       = Inr 1735689600"
    by (simp add: example_defs)
  have f: "save_fault (example_env\<lparr>save_fault := Some ZeroRows\<rparr>) = Some ZeroRows"
    by simp
  from persistence_failure_panics [OF h b t f] h b t f show ?thesis
    by (metis sum.disc(2))
qed

section \<open>The store and the migration worker\<close>

lemma db_Save_other_tables:
  "file_items (db_Save g d) = file_items d"
  "user_keys (db_Save g d) = user_keys d"
  "short_links (db_Save g d) = short_links d"
  by (simp_all add: db_Save_def)

lemma db_Save_row:
  assumes "r \<in> set (file_groups (db_Save g d))" and "ID r = ID g"
  shows "r = g"
  using assms by (auto simp: db_Save_def split: if_splits)

lemma db_Save_mem:
  "g \<in> set (file_groups (db_Save g d))"
  by (auto simp: db_Save_def)

lemma db_Save_other_rows:
  assumes "ID r \<noteq> ID g"
  shows "r \<in> set (file_groups (db_Save g d)) \<longleftrightarrow> r \<in> set (file_groups d)"
  using assms by (auto simp: db_Save_def)

lemma ops_put_error:
  "os_Open (e\<lparr>put_error := x\<rparr>) d p = os_Open e d p"
  "os_Remove (e\<lparr>put_error := x\<rparr>) d p = os_Remove e d p"
  "zip_Encrypt (e\<lparr>put_error := x\<rparr>) zw n pw = zip_Encrypt e zw n pw"
  "io_Copy (e\<lparr>put_error := x\<rparr>) p f zw = io_Copy e p f zw"
  by (simp_all add: os_Open_def os_Remove_def zip_Encrypt_def io_Copy_def)

lemma share_keys_put_error:
  "share_keys (e\<lparr>put_error := x\<rparr>) d l = share_keys e d l"
  by (simp add: share_keys_def db_Find_keys_def)

lemma zip_item_put_error:
  "zip_item (e\<lparr>put_error := x\<rparr>) password item st = zip_item e password item st"
  by (simp add: zip_item_def ops_put_error
      cong: option.case_cong prod.case_cong bool.case_cong)

lemma zip_items_put_error:
  "zip_items (e\<lparr>put_error := x\<rparr>) password items st = zip_items e password items st"
  by (induction items arbitrary: st) (simp_all add: zip_item_put_error)

lemma admit_put_error:
  "admit (e\<lparr>put_error := x\<rparr>) r d = admit e r d"
  by (simp add: admit_def cong: option.case_cong sum.case_cong)

lemma create_archive_put_error:
  "create_archive (e\<lparr>put_error := x\<rparr>) l d = create_archive e l d"
  by (simp add: create_archive_def archive_path_def os_Create_def
      cong: option.case_cong sum.case_cong prod.case_cong)

lemma write_archive_put_error:
  "write_archive (e\<lparr>put_error := x\<rparr>) l d = write_archive e l d"
  by (simp add: write_archive_def zip_items_put_error)

lemma wrap_archive_put_error:
  "wrap_archive (e\<lparr>put_error := x\<rparr>) l d = wrap_archive e l d"
  by (simp add: wrap_archive_def EncryptFile_def ops_put_error
      cong: option.case_cong sum.case_cong prod.case_cong if_cong)

lemma stamp_put_error:
  "stamp (e\<lparr>put_error := x\<rparr>) l = stamp e l"
  by (simp add: stamp_def cong: sum.case_cong)

lemma bundle_prepare_put_error:
  "bundle_prepare (e\<lparr>put_error := x\<rparr>) r w = bundle_prepare e r w"
  by (simp add: bundle_prepare_def admit_put_error create_archive_put_error
      share_keys_put_error write_archive_put_error wrap_archive_put_error stamp_put_error
      cong: sum.case_cong prod.case_cong)

lemma bundle_finish_put_error:
  "bundle_finish (e\<lparr>put_error := x\<rparr>) l w = bundle_finish e l w"
  by (simp add: bundle_finish_def pin_code_def MakeNewCode_def Let_def
      cong: option.case_cong sum.case_cong prod.case_cong if_cong)

lemma BundleFileGroup_put_error:
  "BundleFileGroup (e\<lparr>put_error := x\<rparr>) r w = BundleFileGroup e r w"
  by (simp add: BundleFileGroup_def bundle_prepare_put_error bundle_finish_put_error
      cong: sum.case_cong prod.case_cong)

text \<open>
  Claim C8, as the code has it. The migration worker, given the local path of the
  finished artifact and the row of the group: when the file opens and \<^verbatim>\<open>PutObject\<close>
  succeeds, the bucket holds the file's content under the base name of the path with the
  group's expiry and no other object has changed; the worker then calls \<^verbatim>\<open>db.Save\<close> and
  \<^verbatim>\<open>os.Remove\<close> without looking at their results, so the store holds the group's row
  with the base name as its \<^verbatim>\<open>FileKey\<close> when the save succeeds and is as it was when the
  save fails, and the local file is gone when the removal succeeds and still there when
  it fails; no other file has changed. When the file does not open or the upload fails,
  the world is as it was. The handler's own result does not depend on whether the upload
  fails.
\<close>

theorem migration_worker_contract:
  "(os_Open e (disk w) filePath = Some c \<and> \<not> put_error e (filepath_Base filePath) \<longrightarrow>
      bucket (migration_worker e (filePath, g) w) (filepath_Base filePath) = Some (c, ExpiredAt g)
      \<and> (\<forall>k. k \<noteq> filepath_Base filePath \<longrightarrow>
            bucket (migration_worker e (filePath, g) w) k = bucket w k)
      \<and> (save_fault e = None \<longrightarrow>
            store (migration_worker e (filePath, g) w)
              = db_Save (g\<lparr>FileKey := filepath_Base filePath\<rparr>) (store w)
            \<and> (\<exists>r \<in> set (file_groups (store (migration_worker e (filePath, g) w))). ID r = ID g)
            \<and> (\<forall>r \<in> set (file_groups (store (migration_worker e (filePath, g) w))).
                  ID r = ID g \<longrightarrow> FileKey r = filepath_Base filePath))
      \<and> (save_fault e \<noteq> None \<longrightarrow> store (migration_worker e (filePath, g) w) = store w)
      \<and> (\<not> remove_error e filePath \<longrightarrow> disk (migration_worker e (filePath, g) w) filePath = None)
      \<and> (remove_error e filePath \<longrightarrow> disk (migration_worker e (filePath, g) w) = disk w)
      \<and> (\<forall>p. p \<noteq> filePath \<longrightarrow> disk (migration_worker e (filePath, g) w) p = disk w p))
   \<and> (os_Open e (disk w) filePath = None \<or> put_error e (filepath_Base filePath) \<longrightarrow>
        migration_worker e (filePath, g) w = w)
   \<and> BundleFileGroup (e\<lparr>put_error := x\<rparr>) r w = BundleFileGroup e r w"
proof (intro conjI impI)
  assume a: "os_Open e (disk w) filePath = Some c \<and> \<not> put_error e (filepath_Base filePath)"
  then have m: "migration_worker e (filePath, g) w =
      w\<lparr>bucket := (bucket w)(filepath_Base filePath \<mapsto> (c, ExpiredAt g)),
        store := (case save_fault e of
                    Some fault \<Rightarrow> store w
                  | None \<Rightarrow> db_Save (g\<lparr>FileKey := filepath_Base filePath\<rparr>) (store w)),
        disk := os_Remove e (disk w) filePath\<rparr>"
    by (simp add: migration_worker_def Let_def split: option.splits)
  show "bucket (migration_worker e (filePath, g) w) (filepath_Base filePath) = Some (c, ExpiredAt g)"
    by (simp add: m)
  show "\<forall>k. k \<noteq> filepath_Base filePath \<longrightarrow> bucket (migration_worker e (filePath, g) w) k = bucket w k"
    by (simp add: m)
  show "store (migration_worker e (filePath, g) w) = store w" if "save_fault e \<noteq> None"
    using that by (auto simp: m)
  show "disk (migration_worker e (filePath, g) w) filePath = None" if "\<not> remove_error e filePath"
    using that by (simp add: m os_Remove_def)
  show "disk (migration_worker e (filePath, g) w) = disk w" if "remove_error e filePath"
    using that by (simp add: m os_Remove_def)
  show "\<forall>p. p \<noteq> filePath \<longrightarrow> disk (migration_worker e (filePath, g) w) p = disk w p"
    by (simp add: m os_Remove_def)
  {
    assume sf: "save_fault e = None"
    show st: "store (migration_worker e (filePath, g) w)
        = db_Save (g\<lparr>FileKey := filepath_Base filePath\<rparr>) (store w)"
      by (simp add: m sf)
    have "g\<lparr>FileKey := filepath_Base filePath\<rparr>
        \<in> set (file_groups (db_Save (g\<lparr>FileKey := filepath_Base filePath\<rparr>) (store w)))"
      by (rule db_Save_mem)
    then show "\<exists>r \<in> set (file_groups (store (migration_worker e (filePath, g) w))). ID r = ID g"
      by (auto simp: st intro!: bexI [where x = "g\<lparr>FileKey := filepath_Base filePath\<rparr>"])
    show "\<forall>r \<in> set (file_groups (store (migration_worker e (filePath, g) w))).
              ID r = ID g \<longrightarrow> FileKey r = filepath_Base filePath"
    proof (intro ballI impI)
      fix r assume "r \<in> set (file_groups (store (migration_worker e (filePath, g) w)))" "ID r = ID g"
      then have "r = g\<lparr>FileKey := filepath_Base filePath\<rparr>"
        using db_Save_row [of r "g\<lparr>FileKey := filepath_Base filePath\<rparr>" "store w"] by (simp add: st)
      then show "FileKey r = filepath_Base filePath" by simp
    qed
  }
next
  assume "os_Open e (disk w) filePath = None \<or> put_error e (filepath_Base filePath)"
  then show "migration_worker e (filePath, g) w = w"
    by (auto simp: migration_worker_def Let_def split: option.splits)
next
  show "BundleFileGroup (e\<lparr>put_error := x\<rparr>) r w = BundleFileGroup e r w"
    by (rule BundleFileGroup_put_error)
qed

theorem migration_worker_contract_witness:
  "os_Open example_env (disk bundled_world) ''/z/g.zip''
     = Some (Zip [Entry ''a.txt'' ''secret1'' (Plain ''A'') None])
   \<and> \<not> put_error example_env (filepath_Base ''/z/g.zip'')
   \<and> save_fault example_env = None
   \<and> \<not> remove_error example_env ''/z/g.zip''
   \<and> filepath_Base ''/z/g.zip'' = ''g.zip''
   \<and> bucket (migration_worker example_env (''/z/g.zip'', bundled_group) bundled_world) ''g.zip''
       = Some (Zip [Entry ''a.txt'' ''secret1'' (Plain ''A'') None], Some 1735689600)
   \<and> map FileKey (file_groups (store
         (migration_worker example_env (''/z/g.zip'', bundled_group) bundled_world))) = [''g.zip'']
   \<and> disk (migration_worker example_env (''/z/g.zip'', bundled_group) bundled_world) ''/z/g.zip''
       = None
   \<and> put_error (example_env\<lparr>put_error := (\<lambda>k. True)\<rparr>) (filepath_Base ''/z/g.zip'')
   \<and> migration_worker (example_env\<lparr>put_error := (\<lambda>k. True)\<rparr>) (''/z/g.zip'', bundled_group)
         bundled_world = bundled_world
   \<and> \<not> put_error save_fails_env (filepath_Base ''/z/g.zip'')
   \<and> save_fault save_fails_env \<noteq> None
   \<and> store (migration_worker save_fails_env (''/z/g.zip'', bundled_group) bundled_world)
       = store bundled_world
   \<and> remove_error archive_stays_env ''/z/g.zip''
   \<and> disk (migration_worker archive_stays_env (''/z/g.zip'', bundled_group) bundled_world)
       = disk bundled_world"
proof -
  have c: "os_Open save_fails_env (disk bundled_world) ''/z/g.zip''
     = Some (Zip [Entry ''a.txt'' ''secret1'' (Plain ''A'') None])"
    "os_Open archive_stays_env (disk bundled_world) ''/z/g.zip''
     = Some (Zip [Entry ''a.txt'' ''secret1'' (Plain ''A'') None])"
    "\<not> put_error save_fails_env (filepath_Base ''/z/g.zip'')"
    "\<not> put_error archive_stays_env (filepath_Base ''/z/g.zip'')"
    "save_fault save_fails_env \<noteq> None"
    "remove_error archive_stays_env ''/z/g.zip''"
    by (simp_all add: handler_defs example_defs)
  from migration_worker_contract [where e = save_fails_env and w = bundled_world
      and filePath = "''/z/g.zip''" and g = bundled_group
      and c = "Zip [Entry ''a.txt'' ''secret1'' (Plain ''A'') None]"] c(1,3,5)
  have s: "store (migration_worker save_fails_env (''/z/g.zip'', bundled_group) bundled_world)
       = store bundled_world"
    by blast
  from migration_worker_contract [where e = archive_stays_env and w = bundled_world
      and filePath = "''/z/g.zip''" and g = bundled_group
      and c = "Zip [Entry ''a.txt'' ''secret1'' (Plain ''A'') None]"] c(2,4,6)
  have d: "disk (migration_worker archive_stays_env (''/z/g.zip'', bundled_group) bundled_world)
       = disk bundled_world"
    by blast
  have v: "os_Open example_env (disk bundled_world) ''/z/g.zip''
     = Some (Zip [Entry ''a.txt'' ''secret1'' (Plain ''A'') None])"
    "\<not> put_error example_env (filepath_Base ''/z/g.zip'')"
    "save_fault example_env = None"
    "\<not> remove_error example_env ''/z/g.zip''"
    "filepath_Base ''/z/g.zip'' = ''g.zip''"
    "put_error (example_env\<lparr>put_error := (\<lambda>k. True)\<rparr>) (filepath_Base ''/z/g.zip'')"
    by (simp_all add: handler_defs example_defs)
  have x: "bucket (migration_worker example_env (''/z/g.zip'', bundled_group) bundled_world) ''g.zip''
       = Some (Zip [Entry ''a.txt'' ''secret1'' (Plain ''A'') None], Some 1735689600)"
    "map FileKey (file_groups (store
         (migration_worker example_env (''/z/g.zip'', bundled_group) bundled_world))) = [''g.zip'']"
    by (simp_all add: handler_defs example_defs Let_def)
  from migration_worker_contract [where e = example_env and w = bundled_world
      and filePath = "''/z/g.zip''" and g = bundled_group
      and c = "Zip [Entry ''a.txt'' ''secret1'' (Plain ''A'') None]"] v(1,2,4)
  have y: "disk (migration_worker example_env (''/z/g.zip'', bundled_group) bundled_world) ''/z/g.zip''
       = None"
    by blast
  from migration_worker_contract [where e = "example_env\<lparr>put_error := (\<lambda>k. True)\<rparr>"
      and w = bundled_world and filePath = "''/z/g.zip''" and g = bundled_group] v(6)
  have z: "migration_worker (example_env\<lparr>put_error := (\<lambda>k. True)\<rparr>) (''/z/g.zip'', bundled_group)
         bundled_world = bundled_world"
    by blast
  from v x y z c(3,5,6) s d show ?thesis by simp
qed

text \<open>
  The claim as the spec states it fails where the worker's save fails: the upload
  succeeds, the row keeps the local path as its locator, and the file at that path is
  removed all the same.
\<close>

theorem failed_save_strands_locator:
  "os_Open save_fails_env (disk bundled_world) ''/z/g.zip''
     = Some (Zip [Entry ''a.txt'' ''secret1'' (Plain ''A'') None])
   \<and> \<not> put_error save_fails_env (filepath_Base ''/z/g.zip'')
   \<and> bucket (migration_worker save_fails_env (''/z/g.zip'', bundled_group) bundled_world) ''g.zip''
       = Some (Zip [Entry ''a.txt'' ''secret1'' (Plain ''A'') None], Some 1735689600)
   \<and> map FileKey (file_groups (store
         (migration_worker save_fails_env (''/z/g.zip'', bundled_group) bundled_world)))
       = [''/z/g.zip'']
   \<and> disk (migration_worker save_fails_env (''/z/g.zip'', bundled_group) bundled_world) ''/z/g.zip''
       = None"
  by (simp add: handler_defs example_defs)

section \<open>Properties of the handler as a whole\<close>

lemma write_archive_cong:
  assumes "fileItems l' = fileItems l" "bodyParams l' = bodyParams l" "bundledFullPath l' = bundledFullPath l"
  shows "write_archive e l' d = write_archive e l d"
  using assms by (simp add: write_archive_def)


lemma bundle_prepare_disk:
  assumes "bundle_prepare e r w = Inr (l, w')"
  shows "userPubKeys l =
           (if UserIds (bodyParams l) = [] then []
            else map Public (db_Find_keys e (store w) (UserIds (bodyParams l) @ [userId l])))
       \<and> (if userPubKeys l = []
          then FileKey (fileGroup l) = bundledFullPath l
             \<and> disk w' = write_archive e l ((disk w)(bundledFullPath l \<mapsto> Plain []))
          else \<exists>c. write_archive e l ((disk w)(bundledFullPath l \<mapsto> Plain [])) (bundledFullPath l) = Some c
             \<and> FileKey (fileGroup l) = wrap_name e (bundledFullPath l) (dirpaths_bundle e)
             \<and> disk w' = os_Remove e
                 ((write_archive e l ((disk w)(bundledFullPath l \<mapsto> Plain [])))
                    (wrap_name e (bundledFullPath l) (dirpaths_bundle e) \<mapsto> Age (userPubKeys l) c))
                 (bundledFullPath l))"
proof -
  from bundle_prepare_InrD [OF assms] obtain l0 l1 d1 l2 d2 where
    a: "admit e r (store w) = Inr l0"
    and c: "create_archive e l0 (disk w) = Inr (l1, d1)"
    and wr: "wrap_archive e (share_keys e (store w) l1) (write_archive e (share_keys e (store w) l1) d1) = Inr (l2, d2)"
    and l: "l = stamp e l2" and w': "w' = w\<lparr>disk := d2\<rparr>"
    by blast
  from admit_InrD [OF a] obtain u p h g where
    l0: "l0 = \<lparr>userId = u, bodyParams = p, passcode = h, fileGroup = g,
                    fileItems = db_Find_items (store w) (ID g), bundledFullPath = [],
                    userPubKeys = [], err = None\<rparr>"
    by blast
  from create_archive_InrD [OF c] have l1: "l1 = l0\<lparr>bundledFullPath := archive_path e (ID (fileGroup l0))\<rparr>"
    and d1: "d1 = (disk w)(archive_path e (ID (fileGroup l0)) \<mapsto> Plain [])"
    by simp_all
  define ls where "ls = share_keys e (store w) l1"
  note wf = wrap_archive_fields [OF wr [folded ls_def]]
  have f1: "fileItems l = fileItems ls" "bodyParams l = bodyParams ls" "bundledFullPath l = bundledFullPath ls"
    "userPubKeys l = userPubKeys ls" "userId l = userId ls"
    using l wf by (simp_all add: stamp_fields)
  have bp: "bundledFullPath ls = archive_path e (ID (fileGroup l0))"
    by (simp add: ls_def share_keys_fields l1)
  have wa: "write_archive e ls d1 = write_archive e l ((disk w)(bundledFullPath l \<mapsto> Plain []))"
    using f1 bp d1 by (simp add: write_archive_cong [of ls l])
  have keys: "userPubKeys ls =
           (if UserIds (bodyParams ls) = [] then []
            else map Public (db_Find_keys e (store w) (UserIds (bodyParams ls) @ [userId ls])))"
    by (simp add: ls_def share_keys_userPubKeys share_keys_fields l1 l0)
  have fk: "FileKey (fileGroup l) = FileKey (fileGroup l2)" using l by (simp add: stamp_fields)
  have k: "userPubKeys l =
           (if UserIds (bodyParams l) = [] then []
            else map Public (db_Find_keys e (store w) (UserIds (bodyParams l) @ [userId l])))"
    using keys f1 by simp
  from wrap_archive_InrD [OF wr [folded ls_def]]
  have "if userPubKeys l = []
          then FileKey (fileGroup l) = bundledFullPath l
             \<and> disk w' = write_archive e l ((disk w)(bundledFullPath l \<mapsto> Plain []))
          else \<exists>c. write_archive e l ((disk w)(bundledFullPath l \<mapsto> Plain [])) (bundledFullPath l) = Some c
             \<and> FileKey (fileGroup l) = wrap_name e (bundledFullPath l) (dirpaths_bundle e)
             \<and> disk w' = os_Remove e
                 ((write_archive e l ((disk w)(bundledFullPath l \<mapsto> Plain [])))
                    (wrap_name e (bundledFullPath l) (dirpaths_bundle e) \<mapsto> Age (userPubKeys l) c))
                 (bundledFullPath l)"
  proof
    assume "userPubKeys ls = [] \<and> l2 = ls\<lparr>fileGroup := (fileGroup ls)\<lparr>FileKey := bundledFullPath ls\<rparr>\<rparr>
        \<and> d2 = write_archive e ls d1"
    then show ?thesis using f1 fk wa w' by simp
  next
    assume "userPubKeys ls \<noteq> [] \<and> wrap_error e = None \<and> (\<exists>c. write_archive e ls d1 (bundledFullPath ls) = Some c
            \<and> l2 = ls\<lparr>fileGroup := (fileGroup ls)\<lparr>FileKey := wrap_name e (bundledFullPath ls) (dirpaths_bundle e)\<rparr>\<rparr>
            \<and> d2 = os_Remove e ((write_archive e ls d1)(wrap_name e (bundledFullPath ls) (dirpaths_bundle e) \<mapsto> Age (userPubKeys ls) c)) (bundledFullPath ls))"
    then show ?thesis using f1 fk wa w' by auto
  qed
  with k show ?thesis by blast
qed

lemma bundle_finish_cases:
  assumes "bundle_finish e l w = (resp, w', job)"
  shows "(save_fault e \<noteq> None \<and> w' = w \<and> job = None)
       \<or> (save_fault e = None \<and> job = Some (FileKey (fileGroup l), fileGroup l)
           \<and> disk w' = disk w \<and> bucket w' = bucket w
           \<and> file_groups (store w') = file_groups (db_Save (fileGroup l) (store w))
           \<and> file_items (store w') = file_items (store w)
           \<and> user_keys (store w') = user_keys (store w)
           \<and> ((\<exists>pin code. pin_code e l = Inr pin \<and> code_result e = Inr code
                  \<and> resp = JSON_Created (ExpiredAt (fileGroup l)) (MakeURL e code)
                  \<and> short_links (store w') = short_links (store w) @
                       [\<lparr>ShortCode = code, LinkFileGroupId = ID (fileGroup l), PinCode = pin\<rparr>])
              \<or> ((\<exists>m. resp = AbortWithStatusJSON 500 m)
                  \<and> ((\<exists>m. pin_code e l = Inl m) \<or> (\<exists>m. code_result e = Inl m))
                  \<and> short_links (store w') = short_links (store w))))"
  using assms unfolding bundle_finish_def MakeNewCode_def Let_def
  by (auto simp: db_Save_other_tables split: option.splits sum.splits)

lemma BundleFileGroup_cases:
  assumes "BundleFileGroup e r w = (resp, w', job)"
  shows "(bundle_prepare e r w = Inl (resp, w') \<and> job = None)
       \<or> (\<exists>l w1. bundle_prepare e r w = Inr (l, w1) \<and> bundle_finish e l w1 = (resp, w', job))"
  using assms unfolding BundleFileGroup_def by (auto split: sum.splits prod.splits)

lemma write_archive_frame:
  assumes "q \<noteq> bundledFullPath l" and "q \<notin> set (map (member_path e) (fileItems l))"
  shows "write_archive e l d q = d q"
proof -
  obtain d' zw where z: "zip_items e (Passcode (bodyParams l)) (fileItems l) (d, []) = (d', zw)"
    by (cases "zip_items e (Passcode (bodyParams l)) (fileItems l) (d, [])")
  from zip_items_frame [OF assms(2), of "Passcode (bodyParams l)" d "[]"] z
  have "d' q = d q" by simp
  with assms(1) z show ?thesis by (simp add: write_archive_def zip_Close_def)
qed

lemma bundle_prepare_Inl_frame:
  assumes "bundle_prepare e r w = Inl (resp, w')"
    and "ShouldBindJSON r = Some p"
    and "q \<noteq> archive_path e (FileGroupId p)"
    and "q \<notin> set (map (member_path e) (db_Find_items (store w) (FileGroupId p)))"
  shows "disk w' q = disk w q"
proof -
  from bundle_prepare_InlD [OF assms(1)] show ?thesis
  proof (elim disjE exE conjE)
    assume "w' = w"
    then show ?thesis by simp
  next
    fix l0 assume "w' = w"
    then show ?thesis by simp
  next
    fix l0 l1 d1 d2
    assume a: "admit e r (store w) = Inr l0"
      and c: "create_archive e l0 (disk w) = Inr (l1, d1)"
      and wr: "wrap_archive e (share_keys e (store w) l1) (write_archive e (share_keys e (store w) l1) d1)
                = Inl (resp, d2)"
      and w': "w' = w\<lparr>disk := d2\<rparr>"
    from admit_InrD [OF a] assms(2) obtain u h g where
      g: "db_First (store w) (FileGroupId p) u = Some g"
      and l0: "l0 = \<lparr>userId = u, bodyParams = p, passcode = h, fileGroup = g,
                    fileItems = db_Find_items (store w) (ID g), bundledFullPath = [],
                    userPubKeys = [], err = None\<rparr>"
      by auto
    from db_First_SomeD [OF g] have gid: "ID g = FileGroupId p" by simp
    from create_archive_InrD [OF c] have l1: "l1 = l0\<lparr>bundledFullPath := archive_path e (ID (fileGroup l0))\<rparr>"
      and d1: "d1 = (disk w)(archive_path e (ID (fileGroup l0)) \<mapsto> Plain [])"
      by simp_all
    define ls where "ls = share_keys e (store w) l1"
    have f: "fileItems ls = db_Find_items (store w) (FileGroupId p)"
      "bundledFullPath ls = archive_path e (FileGroupId p)"
      by (simp_all add: ls_def share_keys_fields l1 l0 gid)
    have "write_archive e ls d1 q = d1 q"
      by (rule write_archive_frame) (use assms(3,4) f in simp_all)
    moreover from wrap_archive_InlD [OF wr [folded ls_def]] have "d2 = write_archive e ls d1" by simp
    ultimately show ?thesis using w' d1 l0 gid assms(3) by simp
  qed
qed

text \<open>
  Claim C2, as the code has it. Every request that fails before \<^verbatim>\<open>db.Save\<close> is answered
  with that failure and leaves the store and the remote bucket as they were. The local
  file system is as it was too, unless the failure is that of the recipient wrap: by then
  the archive has been created and written, and the sources that went into it are gone.
  Even then every path other than the archive's and the members' holds what it held.
\<close>

theorem early_failure_leaves_store:
  assumes "bundle_prepare e r w = Inl (resp, w')"
  shows "BundleFileGroup e r w = (resp, w', None)
       \<and> store w' = store w \<and> bucket w' = bucket w
       \<and> (w' = w \<or> (\<exists>m. resp = AbortWithStatusJSON 500 (''Unable to encrypt the file:'' @ m)))
       \<and> (\<forall>p q. ShouldBindJSON r = Some p \<and> q \<noteq> archive_path e (FileGroupId p)
             \<and> q \<notin> set (map (member_path e) (db_Find_items (store w) (FileGroupId p)))
             \<longrightarrow> disk w' q = disk w q)"
proof -
  have b: "BundleFileGroup e r w = (resp, w', None)"
    using assms by (simp add: BundleFileGroup_def)
  from bundle_prepare_InlD [OF assms]
  have "store w' = store w \<and> bucket w' = bucket w
       \<and> (w' = w \<or> (\<exists>m. resp = AbortWithStatusJSON 500 (''Unable to encrypt the file:'' @ m)))"
    by (auto dest: wrap_archive_InlD)
  with b bundle_prepare_Inl_frame [OF assms] show ?thesis by blast
qed

theorem early_failure_leaves_store_witness:
  "bundle_prepare wrap_fails_env shared_request example_world
     = Inl (AbortWithStatusJSON 500 ''Unable to encrypt the file:boom'', fst (snd wrap_failure_result))
   \<and> BundleFileGroup wrap_fails_env shared_request example_world
       = (AbortWithStatusJSON 500 ''Unable to encrypt the file:boom'', fst (snd wrap_failure_result), None)
   \<and> store (fst (snd wrap_failure_result)) = store example_world
   \<and> bucket (fst (snd wrap_failure_result)) = bucket example_world
   \<and> ''/u/c'' \<noteq> archive_path wrap_fails_env ''g''
   \<and> ''/u/c'' \<notin> set (map (member_path wrap_fails_env) (db_Find_items (store example_world) ''g''))
   \<and> disk (fst (snd wrap_failure_result)) ''/u/c'' = disk example_world ''/u/c''"
proof -
  have h: "bundle_prepare wrap_fails_env shared_request example_world
     = Inl (AbortWithStatusJSON 500 ''Unable to encrypt the file:boom'', fst (snd wrap_failure_result))"
    by (simp add: wrap_failure_result_def handler_defs example_defs)
  have b: "ShouldBindJSON shared_request = Some (example_body\<lparr>UserIds := [''u1'']\<rparr>)"
    by (simp add: example_defs)
  have q: "''/u/c'' \<noteq> archive_path wrap_fails_env (FileGroupId (example_body\<lparr>UserIds := [''u1'']\<rparr>))"
    "''/u/c'' \<notin> set (map (member_path wrap_fails_env)
        (db_Find_items (store example_world) (FileGroupId (example_body\<lparr>UserIds := [''u1'']\<rparr>))))"
    by (simp_all add: example_defs archive_path_def member_path_def filepath_Join_def db_Find_items_def)
  from early_failure_leaves_store [OF h] b q
  have "disk (fst (snd wrap_failure_result)) ''/u/c'' = disk example_world ''/u/c''"
    by blast
  moreover from early_failure_leaves_store [OF h]
  have "BundleFileGroup wrap_fails_env shared_request example_world
       = (AbortWithStatusJSON 500 ''Unable to encrypt the file:boom'', fst (snd wrap_failure_result), None)
     \<and> store (fst (snd wrap_failure_result)) = store example_world
     \<and> bucket (fst (snd wrap_failure_result)) = bucket example_world"
    by blast
  ultimately show ?thesis using h q by (simp add: example_defs)
qed

text \<open>
  The claim as the spec states it fails where the wrap fails: the request is answered
  with the failure of the encryption, nothing is saved, and the source \<open>/u/a\<close> that was
  there before the call is gone, while the archive that was not there is.
\<close>

theorem wrap_failure_loses_sources:
  "isl (bundle_prepare wrap_fails_env shared_request example_world)
   \<and> fst (BundleFileGroup wrap_fails_env shared_request example_world)
       = AbortWithStatusJSON 500 ''Unable to encrypt the file:boom''
   \<and> disk example_world ''/u/a'' = Some (Plain ''A'')
   \<and> disk (fst (snd (BundleFileGroup wrap_fails_env shared_request example_world))) ''/u/a'' = None
   \<and> disk example_world ''/z/g.zip'' = None
   \<and> disk (fst (snd (BundleFileGroup wrap_fails_env shared_request example_world))) ''/z/g.zip''
       = Some (Zip [Entry ''a.txt'' ''secret1'' (Plain ''A'') None,
                    Entry ''b.txt'' ''secret1'' (Plain ''B'') None])"
  by (simp add: handler_defs example_defs)

lemma pin_code_cases:
  "pin_code e l =
     (if DownloadPassword (bodyParams l) = [] then Inr []
      else GenerateFromPassword e (DownloadPassword (bodyParams l)))"
  by (simp add: pin_code_def split: sum.splits)

text \<open>
  Claim C4. A run of the handler adds a credential only after its save has succeeded:
  when the credentials of the store have changed, the save did not fail, the row of the
  request's group is in the store with its \<^verbatim>\<open>BundledAt\<close> set, the worker was started, and
  exactly one credential, bound to that group, was added. After a successful save, when a
  download password was supplied and its hash and the code are made without error, the
  credential added carries the hash of the download password as its pin, made by the
  function that also made the stored hash of the passcode. A run that does not get past
  the save adds no credential.
\<close>

theorem credential_after_persistence:
  assumes "BundleFileGroup e r w = (resp, w', job)"
  shows "(short_links (store w') \<noteq> short_links (store w) \<longrightarrow>
            save_fault e = None
            \<and> (\<exists>p g code pin. ShouldBindJSON r = Some p
                 \<and> job = Some (FileKey g, g)
                 \<and> g \<in> set (file_groups (store w')) \<and> ID g = FileGroupId p
                 \<and> BundledAt g = Some (time_Now e)
                 \<and> resp = JSON_Created (ExpiredAt g) (MakeURL e code)
                 \<and> short_links (store w') = short_links (store w) @
                      [\<lparr>ShortCode = code, LinkFileGroupId = FileGroupId p, PinCode = pin\<rparr>]))
       \<and> (\<forall>p h code. job \<noteq> None \<and> ShouldBindJSON r = Some p \<and> DownloadPassword p \<noteq> []
             \<and> GenerateFromPassword e (DownloadPassword p) = Inr h \<and> code_result e = Inr code \<longrightarrow>
             short_links (store w') = short_links (store w) @
               [\<lparr>ShortCode = code, LinkFileGroupId = FileGroupId p, PinCode = h\<rparr>]
             \<and> (\<exists>g \<in> set (file_groups (store w')). ID g = FileGroupId p
                   \<and> GenerateFromPassword e (Passcode p) = Inr (ArchivePasscode g)))
       \<and> (job = None \<longrightarrow> short_links (store w') = short_links (store w))"
proof -
  from BundleFileGroup_cases [OF assms] show ?thesis
  proof
    assume "bundle_prepare e r w = Inl (resp, w') \<and> job = None"
    then have "store w' = store w" "job = None"
      using bundle_prepare_InlD [of e r w resp w'] by (auto dest: wrap_archive_InlD)
    then show ?thesis by simp
  next
    assume "\<exists>l w1. bundle_prepare e r w = Inr (l, w1) \<and> bundle_finish e l w1 = (resp, w', job)"
    then obtain l w1 where p: "bundle_prepare e r w = Inr (l, w1)"
      and f: "bundle_finish e l w1 = (resp, w', job)" by blast
    from bundle_prepare_locals [OF p] have
      bp: "ShouldBindJSON r = Some (bodyParams l)"
      and h: "GenerateFromPassword e (Passcode (bodyParams l)) = Inr (passcode l)"
      and gid: "ID (fileGroup l) = FileGroupId (bodyParams l)"
      and ba: "BundledAt (fileGroup l) = Some (time_Now e)"
      and ap: "ArchivePasscode (fileGroup l) = passcode l"
      and st: "store w1 = store w"
      by auto
    have mem: "fileGroup l \<in> set (file_groups (db_Save (fileGroup l) (store w)))"
      by (rule db_Save_mem)
    from bundle_finish_cases [OF f] show ?thesis
    proof
      assume "save_fault e \<noteq> None \<and> w' = w1 \<and> job = None"
      with st show ?thesis by simp
    next
      assume c: "save_fault e = None \<and> job = Some (FileKey (fileGroup l), fileGroup l)
           \<and> disk w' = disk w1 \<and> bucket w' = bucket w1
           \<and> file_groups (store w') = file_groups (db_Save (fileGroup l) (store w1))
           \<and> file_items (store w') = file_items (store w1)
           \<and> user_keys (store w') = user_keys (store w1)
           \<and> ((\<exists>pin code. pin_code e l = Inr pin \<and> code_result e = Inr code
                  \<and> resp = JSON_Created (ExpiredAt (fileGroup l)) (MakeURL e code)
                  \<and> short_links (store w') = short_links (store w1) @
                       [\<lparr>ShortCode = code, LinkFileGroupId = ID (fileGroup l), PinCode = pin\<rparr>])
              \<or> ((\<exists>m. resp = AbortWithStatusJSON 500 m)
                  \<and> ((\<exists>m. pin_code e l = Inl m) \<or> (\<exists>m. code_result e = Inl m))
                  \<and> short_links (store w') = short_links (store w1)))"
      then have fg: "file_groups (store w') = file_groups (db_Save (fileGroup l) (store w))"
        and job: "job = Some (FileKey (fileGroup l), fileGroup l)" and sf: "save_fault e = None"
        using st by simp_all
      have mem': "fileGroup l \<in> set (file_groups (store w'))" using mem fg by simp
      from c have alt: "(\<exists>pin code. pin_code e l = Inr pin \<and> code_result e = Inr code
                  \<and> resp = JSON_Created (ExpiredAt (fileGroup l)) (MakeURL e code)
                  \<and> short_links (store w') = short_links (store w) @
                       [\<lparr>ShortCode = code, LinkFileGroupId = FileGroupId (bodyParams l), PinCode = pin\<rparr>])
              \<or> (((\<exists>m. pin_code e l = Inl m) \<or> (\<exists>m. code_result e = Inl m))
                  \<and> short_links (store w') = short_links (store w))"
        using st gid by auto
      have one: "short_links (store w') \<noteq> short_links (store w) \<longrightarrow>
            save_fault e = None
            \<and> (\<exists>p g code pin. ShouldBindJSON r = Some p
                 \<and> job = Some (FileKey g, g)
                 \<and> g \<in> set (file_groups (store w')) \<and> ID g = FileGroupId p
                 \<and> BundledAt g = Some (time_Now e)
                 \<and> resp = JSON_Created (ExpiredAt g) (MakeURL e code)
                 \<and> short_links (store w') = short_links (store w) @
                      [\<lparr>ShortCode = code, LinkFileGroupId = FileGroupId p, PinCode = pin\<rparr>])"
        using alt sf bp job mem' gid ba by blast
      have two: "\<forall>p h code. job \<noteq> None \<and> ShouldBindJSON r = Some p \<and> DownloadPassword p \<noteq> []
             \<and> GenerateFromPassword e (DownloadPassword p) = Inr h \<and> code_result e = Inr code \<longrightarrow>
             short_links (store w') = short_links (store w) @
               [\<lparr>ShortCode = code, LinkFileGroupId = FileGroupId p, PinCode = h\<rparr>]
             \<and> (\<exists>g \<in> set (file_groups (store w')). ID g = FileGroupId p
                   \<and> GenerateFromPassword e (Passcode p) = Inr (ArchivePasscode g))"
      proof (intro allI impI)
        fix p h' code
        assume a: "job \<noteq> None \<and> ShouldBindJSON r = Some p \<and> DownloadPassword p \<noteq> []
             \<and> GenerateFromPassword e (DownloadPassword p) = Inr h' \<and> code_result e = Inr code"
        with bp have pe: "bodyParams l = p" by simp
        with a have pc: "pin_code e l = Inr h'" by (simp add: pin_code_cases)
        with alt a pe have "short_links (store w') = short_links (store w) @
               [\<lparr>ShortCode = code, LinkFileGroupId = FileGroupId p, PinCode = h'\<rparr>]"
          by auto
        moreover have "\<exists>g \<in> set (file_groups (store w')). ID g = FileGroupId p
                   \<and> GenerateFromPassword e (Passcode p) = Inr (ArchivePasscode g)"
          using mem' gid h ap pe by (intro bexI [where x = "fileGroup l"]) simp_all
        ultimately show "short_links (store w') = short_links (store w) @
               [\<lparr>ShortCode = code, LinkFileGroupId = FileGroupId p, PinCode = h'\<rparr>]
             \<and> (\<exists>g \<in> set (file_groups (store w')). ID g = FileGroupId p
                   \<and> GenerateFromPassword e (Passcode p) = Inr (ArchivePasscode g))"
          by simp
      qed
      from one two job show ?thesis by simp
    qed
  qed
qed

theorem credential_after_persistence_witness:
  "short_links (store (fst (snd pin_result))) \<noteq> short_links (store example_world)
   \<and> save_fault example_env = None
   \<and> snd (snd pin_result) \<noteq> None
   \<and> DownloadPassword (example_body\<lparr>DownloadPassword := ''download1''\<rparr>) \<noteq> []
   \<and> GenerateFromPassword example_env ''download1'' = Inr ''#download1''
   \<and> code_result example_env = Inr ''c0de''
   \<and> short_links (store (fst (snd pin_result)))
       = short_links (store example_world)
         @ [\<lparr>ShortCode = ''c0de'', LinkFileGroupId = ''g'', PinCode = ''#download1''\<rparr>]
   \<and> snd (snd wrap_failure_result) = None
   \<and> short_links (store (fst (snd wrap_failure_result))) = short_links (store example_world)"
proof -
  have h: "BundleFileGroup example_env pin_request example_world
      = (fst pin_result, fst (snd pin_result), snd (snd pin_result))"
    by (simp add: pin_result_def)
  have h': "BundleFileGroup wrap_fails_env shared_request example_world
      = (fst wrap_failure_result, fst (snd wrap_failure_result), snd (snd wrap_failure_result))"
    by (simp add: wrap_failure_result_def)
  have j: "snd (snd pin_result) \<noteq> None"
    by (simp add: pin_result_def handler_defs example_defs)
  have j': "snd (snd wrap_failure_result) = None"
    by (simp add: wrap_failure_result_def handler_defs example_defs)
  have b: "ShouldBindJSON pin_request = Some (example_body\<lparr>DownloadPassword := ''download1''\<rparr>)"
    by (simp add: example_defs)
  have d: "DownloadPassword (example_body\<lparr>DownloadPassword := ''download1''\<rparr>) \<noteq> []"
    by simp
  have g: "GenerateFromPassword example_env
      (DownloadPassword (example_body\<lparr>DownloadPassword := ''download1''\<rparr>)) = Inr ''#download1''"
    by (simp add: example_defs)
  have c: "code_result example_env = Inr ''c0de''"
    by (simp add: example_defs)
  have s: "save_fault example_env = None"
    by (simp add: example_defs)
  have e: "short_links (store example_world) = []"
    by (simp add: example_defs)
  from credential_after_persistence [OF h]
  have "short_links (store (fst (snd pin_result))) = short_links (store example_world) @
      [\<lparr>ShortCode = ''c0de'',
        LinkFileGroupId = FileGroupId (example_body\<lparr>DownloadPassword := ''download1''\<rparr>),
        PinCode = ''#download1''\<rparr>]"
    using j b d g c by blast
  moreover from credential_after_persistence [OF h']
  have "short_links (store (fst (snd wrap_failure_result))) = short_links (store example_world)"
    using j' by blast
  ultimately show ?thesis using j j' d g c s e by (simp add: example_defs)
qed

lemma db_First_bundled:
  assumes "\<forall>g \<in> set (file_groups d). ID g = gid \<longrightarrow> BundledAt g \<noteq> None"
  shows "db_First d gid u = None"
  using assms by (auto simp: db_First_def find_None_iff)

lemma BundleFileGroup_bundled:
  assumes "\<forall>g \<in> set (file_groups (store w)). ID g = FileGroupId p \<longrightarrow> BundledAt g \<noteq> None"
    and "GetUserId r = Some u" and "ShouldBindJSON r = Some p"
    and "GenerateFromPassword e (Passcode p) = Inr h"
  shows "BundleFileGroup e r w = (AbortWithStatusJSON 500 ''Invalid file group'', w, None)"
proof -
  have "admit e r (store w) = Inl (AbortWithStatusJSON 500 ''Invalid file group'')"
    using assms(2-4) db_First_bundled [OF assms(1), of u] by (simp add: admit_def)
  then show ?thesis by (simp add: BundleFileGroup_def bundle_prepare_def)
qed

lemma db_Save_bundled:
  assumes "BundledAt g \<noteq> None"
  shows "\<forall>x \<in> set (file_groups (db_Save g d)). ID x = ID g \<longrightarrow> BundledAt x \<noteq> None"
  using assms db_Save_row [of _ g d] by blast

lemma BundleFileGroup_persisted:
  assumes "BundleFileGroup e r w = (resp, w', Some job)"
  shows "\<exists>l w1. bundle_prepare e r w = Inr (l, w1) \<and> job = (FileKey (fileGroup l), fileGroup l)
           \<and> save_fault e = None \<and> disk w' = disk w1 \<and> bucket w' = bucket w
           \<and> file_groups (store w') = file_groups (db_Save (fileGroup l) (store w))"
proof -
  from BundleFileGroup_cases [OF assms] obtain l w1 where
    p: "bundle_prepare e r w = Inr (l, w1)" and f: "bundle_finish e l w1 = (resp, w', Some job)"
    by auto
  from bundle_prepare_locals [OF p] have st: "store w1 = store w" "bucket w1 = bucket w" by auto
  from bundle_finish_cases [OF f] st p show ?thesis by auto
qed

lemma migration_worker_store:
  "store (migration_worker e job w) = store w
   \<or> store (migration_worker e job w)
       = db_Save ((snd job)\<lparr>FileKey := filepath_Base (fst job)\<rparr>) (store w)"
  by (auto simp: migration_worker_def Let_def split: option.splits)

lemma migration_worker_bundled:
  assumes "\<forall>x \<in> set (file_groups (store w)). ID x = gid \<longrightarrow> BundledAt x \<noteq> None"
    and "ID (snd job) = gid" and "BundledAt (snd job) \<noteq> None"
  shows "\<forall>x \<in> set (file_groups (store (migration_worker e job w))). ID x = gid \<longrightarrow> BundledAt x \<noteq> None"
proof -
  from migration_worker_store [of e job w] show ?thesis
  proof
    assume "store (migration_worker e job w) = store w"
    with assms(1) show ?thesis by simp
  next
    assume s: "store (migration_worker e job w)
        = db_Save ((snd job)\<lparr>FileKey := filepath_Base (fst job)\<rparr>) (store w)"
    show ?thesis
    proof (intro ballI impI)
      fix x assume x: "x \<in> set (file_groups (store (migration_worker e job w)))" "ID x = gid"
      show "BundledAt x \<noteq> None"
      proof (cases "x \<in> set (file_groups (store w))")
        case True
        with assms(1) x show ?thesis by simp
      next
        case False
        have "ID x = ID ((snd job)\<lparr>FileKey := filepath_Base (fst job)\<rparr>)"
          using x(2) assms(2) by simp
        with x(1) s have "x = (snd job)\<lparr>FileKey := filepath_Base (fst job)\<rparr>"
          using db_Save_row [of x "(snd job)\<lparr>FileKey := filepath_Base (fst job)\<rparr>" "store w"]
          by simp
        with assms(3) show ?thesis by simp
      qed
    qed
  qed
qed

text \<open>
  Claim C1, as the code has it. The fetch of line 67 and the save of line 181 are two
  operations of the store. A call that begins after another call on the same group has
  saved (before or after that call's migration worker has run) finds no row that is not
  yet bundled: it is answered "Invalid file group" and changes nothing.
\<close>

theorem bundled_group_is_refused:
  assumes "BundleFileGroup e r w = (resp, w', Some job)" and "ShouldBindJSON r = Some p"
    and "GetUserId r2 = Some u2" and "ShouldBindJSON r2 = Some p2"
    and "FileGroupId p2 = FileGroupId p"
    and "GenerateFromPassword e2 (Passcode p2) = Inr h2"
  shows "BundleFileGroup e2 r2 w' = (AbortWithStatusJSON 500 ''Invalid file group'', w', None)
       \<and> BundleFileGroup e2 r2 (migration_worker e3 job w')
           = (AbortWithStatusJSON 500 ''Invalid file group'', migration_worker e3 job w', None)"
proof -
  from BundleFileGroup_persisted [OF assms(1)] obtain l w1 where
    p: "bundle_prepare e r w = Inr (l, w1)" and job: "job = (FileKey (fileGroup l), fileGroup l)"
    and fg: "file_groups (store w') = file_groups (db_Save (fileGroup l) (store w))"
    by blast
  from bundle_prepare_locals [OF p] assms(2) have
    gid: "ID (fileGroup l) = FileGroupId p" and ba: "BundledAt (fileGroup l) \<noteq> None"
    by auto
  have m: "\<forall>x \<in> set (file_groups (store w')). ID x = FileGroupId p2 \<longrightarrow> BundledAt x \<noteq> None"
    using db_Save_bundled [OF ba, of "store w"] fg gid assms(5) by simp
  have m': "\<forall>x \<in> set (file_groups (store (migration_worker e3 job w'))).
             ID x = FileGroupId p2 \<longrightarrow> BundledAt x \<noteq> None"
    by (rule migration_worker_bundled [OF m]) (simp_all add: job gid ba assms(5))
  from BundleFileGroup_bundled [OF m assms(3,4,6)] BundleFileGroup_bundled [OF m' assms(3,4,6)]
  show ?thesis by simp
qed

theorem bundled_group_is_refused_witness:
  "BundleFileGroup example_env example_request example_world
     = (JSON_Created (Some 1735689600) ''/d/c0de'', fst (snd plain_result),
        Some (''/z/g.zip'', snd (the (snd (snd plain_result)))))
   \<and> BundleFileGroup example_env pin_request (fst (snd plain_result))
       = (AbortWithStatusJSON 500 ''Invalid file group'', fst (snd plain_result), None)
   \<and> BundleFileGroup example_env pin_request
         (migration_worker example_env (''/z/g.zip'', snd (the (snd (snd plain_result))))
            (fst (snd plain_result)))
       = (AbortWithStatusJSON 500 ''Invalid file group'',
          migration_worker example_env (''/z/g.zip'', snd (the (snd (snd plain_result))))
            (fst (snd plain_result)),
          None)"
proof -
  have h: "BundleFileGroup example_env example_request example_world
     = (JSON_Created (Some 1735689600) ''/d/c0de'', fst (snd plain_result),
        Some (''/z/g.zip'', snd (the (snd (snd plain_result)))))"
    by (simp add: plain_result_def handler_defs example_defs)
  have b: "ShouldBindJSON example_request = Some example_body"
    by (simp add: example_defs)
  have u2: "GetUserId pin_request = Some ''o''"
    by (simp add: example_defs)
  have b2: "ShouldBindJSON pin_request = Some (example_body\<lparr>DownloadPassword := ''download1''\<rparr>)"
    by (simp add: example_defs)
  have g: "FileGroupId (example_body\<lparr>DownloadPassword := ''download1''\<rparr>) = FileGroupId example_body"
    by simp
  have p: "GenerateFromPassword example_env (Passcode (example_body\<lparr>DownloadPassword := ''download1''\<rparr>))
      = Inr ''#secret1''"
    by (simp add: example_defs)
  from bundled_group_is_refused [OF h b u2 b2 g p, of example_env] h show ?thesis
    by simp
qed

text \<open>
  The claim as the spec states it fails for calls that overlap: in the example both calls
  are answered with success. The second call finds the row still unbundled, creates the
  archive again, finds no source left, and its empty archive is what the path holds in the
  end.
\<close>

theorem overlapping_calls_both_succeed:
  "overlapping_calls example_env example_request example_request example_world \<noteq> None
   \<and> fst (the (overlapping_calls example_env example_request example_request example_world))
       = JSON_Created (Some 1735689600) ''/d/c0de''
   \<and> fst (snd (the (overlapping_calls example_env example_request example_request example_world)))
       = JSON_Created (Some 1735689600) ''/d/c0de''
   \<and> disk (snd (snd (the (overlapping_calls example_env example_request example_request
         example_world)))) ''/z/g.zip'' = Some (Zip [])"
  by (simp add: overlapping_calls_def handler_defs example_defs)

lemma db_Find_keys_owner:
  assumes "k \<in> set (user_keys d)" and "UserId k = u" and "\<not> keys_error e"
  shows "k \<in> set (db_Find_keys e d (ids @ [u]))"
  using assms by (simp add: db_Find_keys_def)

text \<open>
  Claim C6, as the code has it. When the request names recipients, the look-up of the
  keys does not fail and the request reaches the save, the keys given to the wrap are the
  registered keys of the recipients and of the requester, whether or not the requester is
  in the list: a key registered for the requester is among them, and the artifact the
  locator names is an envelope for exactly these keys.
\<close>

theorem owner_key_among_recipients:
  assumes "bundle_prepare e r w = Inr (l, w')"
    and "GetUserId r = Some u" and "ShouldBindJSON r = Some p" and "UserIds p \<noteq> []"
    and "\<not> keys_error e"
    and "k \<in> set (user_keys (store w))" and "UserId k = u"
    and "wrap_name e (archive_path e (FileGroupId p)) (dirpaths_bundle e)
           \<noteq> archive_path e (FileGroupId p)"
  shows "userPubKeys l = map Public (db_Find_keys e (store w) (UserIds p @ [u]))
       \<and> set (db_Find_keys e (store w) (UserIds p @ [u]))
           = {x \<in> set (user_keys (store w)). UserId x \<in> set (UserIds p) \<or> UserId x = u}
       \<and> Public k \<in> set (userPubKeys l)
       \<and> (\<exists>c. disk w' (FileKey (fileGroup l)) = Some (Age (userPubKeys l) c))"
proof -
  from bundle_prepare_locals [OF assms(1)] assms(2,3) have
    bp: "bodyParams l = p" and u: "userId l = u"
    and path: "bundledFullPath l = archive_path e (FileGroupId p)"
    by auto
  from bundle_prepare_disk [OF assms(1)] have
    keys: "userPubKeys l =
           (if UserIds (bodyParams l) = [] then []
            else map Public (db_Find_keys e (store w) (UserIds (bodyParams l) @ [userId l])))"
    and dk: "if userPubKeys l = []
          then FileKey (fileGroup l) = bundledFullPath l
             \<and> disk w' = write_archive e l ((disk w)(bundledFullPath l \<mapsto> Plain []))
          else \<exists>c. write_archive e l ((disk w)(bundledFullPath l \<mapsto> Plain [])) (bundledFullPath l) = Some c
             \<and> FileKey (fileGroup l) = wrap_name e (bundledFullPath l) (dirpaths_bundle e)
             \<and> disk w' = os_Remove e
                 ((write_archive e l ((disk w)(bundledFullPath l \<mapsto> Plain [])))
                    (wrap_name e (bundledFullPath l) (dirpaths_bundle e) \<mapsto> Age (userPubKeys l) c))
                 (bundledFullPath l)"
    by blast+
  have k1: "userPubKeys l = map Public (db_Find_keys e (store w) (UserIds p @ [u]))"
    using keys bp u assms(4) by simp
  have k0: "set (db_Find_keys e (store w) (UserIds p @ [u]))
           = {x \<in> set (user_keys (store w)). UserId x \<in> set (UserIds p) \<or> UserId x = u}"
    using assms(5) by (auto simp: db_Find_keys_def)
  have k2: "Public k \<in> set (userPubKeys l)"
    using db_Find_keys_owner [OF assms(6,7,5), of "UserIds p"] k1 by simp
  then have ne: "userPubKeys l \<noteq> []" by auto
  with dk obtain c where
    fk: "FileKey (fileGroup l) = wrap_name e (bundledFullPath l) (dirpaths_bundle e)"
    and d: "disk w' = os_Remove e
                 ((write_archive e l ((disk w)(bundledFullPath l \<mapsto> Plain [])))
                    (wrap_name e (bundledFullPath l) (dirpaths_bundle e) \<mapsto> Age (userPubKeys l) c))
                 (bundledFullPath l)"
    by auto
  have "disk w' (FileKey (fileGroup l)) = Some (Age (userPubKeys l) c)"
    using fk d path assms(8) by (simp add: os_Remove_def)
  with k0 k1 k2 show ?thesis by blast
qed

theorem owner_key_among_recipients_witness:
  "bundle_prepare example_env shared_request example_world
     = Inr (fst shared_prepared, snd shared_prepared)
   \<and> UserIds (example_body\<lparr>UserIds := [''u1'']\<rparr>) \<noteq> []
   \<and> \<not> keys_error example_env
   \<and> \<lparr>UserId = ''o'', Public = ''Ko''\<rparr> \<in> set (user_keys (store example_world))
   \<and> wrap_name example_env (archive_path example_env ''g'') (dirpaths_bundle example_env)
       \<noteq> archive_path example_env ''g''
   \<and> userPubKeys (fst shared_prepared) = [''Ko'', ''K1'']
   \<and> FileKey (fileGroup (fst shared_prepared)) = ''/z/g.zip.age''
   \<and> disk (snd shared_prepared) ''/z/g.zip.age''
       = Some (Age [''Ko'', ''K1'']
                (Zip [Entry ''a.txt'' ''secret1'' (Plain ''A'') None,
                      Entry ''b.txt'' ''secret1'' (Plain ''B'') None]))"
proof -
  have h: "bundle_prepare example_env shared_request example_world
     = Inr (fst shared_prepared, snd shared_prepared)"
    by (simp add: shared_prepared_def handler_defs example_defs)
  have u: "GetUserId shared_request = Some ''o''"
    by (simp add: example_defs)
  have b: "ShouldBindJSON shared_request = Some (example_body\<lparr>UserIds := [''u1'']\<rparr>)"
    by (simp add: example_defs)
  have n: "UserIds (example_body\<lparr>UserIds := [''u1'']\<rparr>) \<noteq> []"
    by simp
  have ke: "\<not> keys_error example_env"
    by (simp add: example_defs)
  have k: "\<lparr>UserId = ''o'', Public = ''Ko''\<rparr> \<in> set (user_keys (store example_world))"
    by (simp add: example_defs)
  have o: "UserId \<lparr>UserId = ''o'', Public = ''Ko''\<rparr> = ''o''"
    by simp
  have f: "wrap_name example_env (archive_path example_env (FileGroupId (example_body\<lparr>UserIds := [''u1'']\<rparr>)))
       (dirpaths_bundle example_env)
       \<noteq> archive_path example_env (FileGroupId (example_body\<lparr>UserIds := [''u1'']\<rparr>))"
    by (simp add: example_defs archive_path_def filepath_Join_def)
  have v: "userPubKeys (fst shared_prepared) = [''Ko'', ''K1'']"
    "FileKey (fileGroup (fst shared_prepared)) = ''/z/g.zip.age''"
    "disk (snd shared_prepared) ''/z/g.zip.age''
       = Some (Age [''Ko'', ''K1'']
                (Zip [Entry ''a.txt'' ''secret1'' (Plain ''A'') None,
                      Entry ''b.txt'' ''secret1'' (Plain ''B'') None]))"
    by (simp_all add: shared_prepared_def handler_defs example_defs)
  from owner_key_among_recipients [OF h u b n ke k o f]
  have "Public \<lparr>UserId = ''o'', Public = ''Ko''\<rparr> \<in> set (userPubKeys (fst shared_prepared))"
    by blast
  with h n ke k f v show ?thesis
    by (simp add: example_defs)
qed

text \<open>
  The claim as the spec states it fails for a requester without a registered key: the
  look-up returns the recipient's key only, the request succeeds, and the envelope opens
  for \<open>K1\<close> alone. It fails also where the look-up itself fails, with every key
  registered: the handler tests the number of rows only, finds none, and answers with
  success for an archive that is not wrapped at all.
\<close>

theorem owner_without_key_is_left_out:
  "GetUserId shared_request = Some ''o''
   \<and> db_Find_keys example_env (store keyless_world) [''o''] = []
   \<and> fst (BundleFileGroup example_env shared_request keyless_world)
       = JSON_Created (Some 1735689600) ''/d/c0de''
   \<and> disk (fst (snd (BundleFileGroup example_env shared_request keyless_world))) ''/z/g.zip.age''
       = Some (Age [''K1''] (Zip [Entry ''a.txt'' ''secret1'' (Plain ''A'') None,
                                  Entry ''b.txt'' ''secret1'' (Plain ''B'') None]))
   \<and> keys_error keys_fail_env
   \<and> fst (BundleFileGroup keys_fail_env shared_request example_world)
       = JSON_Created (Some 1735689600) ''/d/c0de''
   \<and> map FileKey (file_groups (store (fst (snd
         (BundleFileGroup keys_fail_env shared_request example_world))))) = [''/z/g.zip'']
   \<and> disk (fst (snd (BundleFileGroup keys_fail_env shared_request example_world))) ''/z/g.zip''
       = Some (Zip [Entry ''a.txt'' ''secret1'' (Plain ''A'') None,
                    Entry ''b.txt'' ''secret1'' (Plain ''B'') None])"
  by (simp add: handler_defs example_defs)







end
